theory Spec2Isabelle
  imports Main
begin

section \<open>JavaScript strings\<close>

text \<open>
  A JavaScript string is modelled as the list of its code units, restricted to the
  code units below 256. In that range the white space of \<open>String.prototype.trim\<close>
  and of the regular expression class \<open>\s\<close> is TAB, LF, VT, FF, CR, SPACE and the
  no-break space U+00A0. Indices are integers, since the source compares them with -1.
\<close>

definition squote :: char where
  "squote = CHR 0x27"

definition dquote :: char where
  "dquote = CHR 0x22"

definition is_ws :: "char \<Rightarrow> bool" where
  "is_ws c = (c \<in> set [CHR 0x09, CHR 0x0A, CHR 0x0B, CHR 0x0C, CHR 0x0D, CHR 0x20, CHR 0xA0])"

definition trim :: "string \<Rightarrow> string" where
  "trim s = rev (dropWhile is_ws (rev (dropWhile is_ws s)))"

text \<open>\<open>s.indexOf(pat)\<close>: the first position where \<open>pat\<close> occurs, or -1.\<close>

fun indexOf :: "string \<Rightarrow> string \<Rightarrow> int" where
  "indexOf [] pat = (if pat = [] then 0 else - 1)"
| "indexOf (c # cs) pat =
     (if take (length pat) (c # cs) = pat then 0
      else (let r = indexOf cs pat in if r = - 1 then - 1 else r + 1))"

definition str_includes :: "string \<Rightarrow> string \<Rightarrow> bool" where
  "str_includes s pat = (indexOf s pat \<noteq> - 1)"

text \<open>
  \<open>s.lastIndexOf(c)\<close> for a one-character search string: the last position of \<open>c\<close>,
  or -1. With a second argument \<open>pos\<close> the search starts at \<open>pos\<close> and goes backwards;
  a negative \<open>pos\<close> counts as 0, so position 0 is still looked at.
\<close>

fun last_idx :: "string \<Rightarrow> char \<Rightarrow> int" where
  "last_idx [] c = - 1"
| "last_idx (x # xs) c =
     (let r = last_idx xs c in
      if r \<noteq> - 1 then r + 1 else if x = c then 0 else - 1)"

definition lastIndexOf :: "string \<Rightarrow> char \<Rightarrow> int" where
  "lastIndexOf s c = last_idx s c"

definition lastIndexOf_from :: "string \<Rightarrow> char \<Rightarrow> int \<Rightarrow> int" where
  "lastIndexOf_from s c pos = last_idx (take (nat (max pos 0) + 1) s) c"

text \<open>
  \<open>s.substring(a, b)\<close>: both arguments are clamped to \<open>0 .. length s\<close> and swapped when
  the first is the larger one. \<open>s.substring(a)\<close> runs to the end of the string.
\<close>

definition substring :: "string \<Rightarrow> int \<Rightarrow> int \<Rightarrow> string" where
  "substring s a b =
     (let n = int (length s);
          a' = min (max a 0) n;
          b' = min (max b 0) n;
          lo = min a' b';
          hi = max a' b'
      in take (nat (hi - lo)) (drop (nat lo) s))"

definition substring_from :: "string \<Rightarrow> int \<Rightarrow> string" where
  "substring_from s a = drop (nat (min (max a 0) (int (length s)))) s"

text \<open>The two quote characters the markup extractor looks for.\<close>

definition is_quote :: "char \<Rightarrow> bool" where
  "is_quote c = (c = squote \<or> c = dquote)"

section \<open>The markup extractor\<close>

definition UNABLE_TO_RESOLVE_VALUE :: string where
  "UNABLE_TO_RESOLVE_VALUE = ''UNABLE_TO_RESOLVE_VALUE''"

text \<open>
  \<open>prettifyKey\<close>: \<open>key.replace(/\s/g, '').replace(/\n/g)\<close>. The second call has no
  replacement argument, so a line feed would be replaced by the text \<open>undefined\<close>; the
  first call has removed every line feed already.
\<close>

definition prettifyKey :: "string \<Rightarrow> string" where
  "prettifyKey key =
     concat (map (\<lambda>c. if c = CHR 0x0A then ''undefined'' else [c])
                 (filter (\<lambda>c. \<not> is_ws c) key))"

definition translateKeyword :: string where
  "translateKeyword = ''| translate''"

text \<open>
  The body of the loop of \<open>extractTranslationsFromString\<close> below the early return:
  from the trimmed text before the marker to the value pushed on \<open>results\<close>.
\<close>

definition translationKeyOf :: "string \<Rightarrow> string" where
  "translationKeyOf attrs =
     (let end = max (lastIndexOf attrs squote) (lastIndexOf attrs dquote);
          start = max (lastIndexOf_from attrs squote (end - 1))
                      (lastIndexOf_from attrs dquote (end - 1)) + 1;
          unresolvedValue = UNABLE_TO_RESOLVE_VALUE @ '': '' @ prettifyKey attrs;
          translationKey = trim (substring attrs start end)
      in if translationKey \<noteq> [] then translationKey else unresolvedValue)"

lemma indexOf_bounds:
  "indexOf s pat \<noteq> - 1 \<Longrightarrow> 0 \<le> indexOf s pat \<and> indexOf s pat + int (length pat) \<le> int (length s)"
proof (induction s)
  case Nil
  then show ?case by (simp split: if_splits)
next
  case (Cons c cs)
  show ?case
  proof (cases "take (length pat) (c # cs) = pat")
    case True
    then have "length (take (length pat) (c # cs)) = length pat"
      by simp
    then have "length pat \<le> length (c # cs)"
      by (simp only: length_take)
    with True show ?thesis by simp
  next
    case False
    with Cons show ?thesis by (auto simp: Let_def split: if_splits)
  qed
qed

function extractTranslationsFromString_loop :: "string \<Rightarrow> string list \<Rightarrow> string list" where
  "extractTranslationsFromString_loop currentString results =
     (let currentTranslateIndex = indexOf currentString translateKeyword in
      if currentTranslateIndex = - 1 then results
      else extractTranslationsFromString_loop
             (substring_from currentString (currentTranslateIndex + int (length translateKeyword)))
             (results @ [translationKeyOf (trim (substring currentString 0 currentTranslateIndex))]))"
  by pat_completeness auto
termination
proof (relation "measure (\<lambda>(s, r). length s)")
  show "wf (measure (\<lambda>(s, r). length s))" by simp
next
  fix currentString :: string and results :: "string list" and i :: int
  assume i: "i = indexOf currentString translateKeyword" and ne: "i \<noteq> - 1"
  from indexOf_bounds [of currentString translateKeyword] i ne
  have "0 \<le> i" and "i + int (length translateKeyword) \<le> int (length currentString)"
    by simp_all
  moreover have "0 < length translateKeyword"
    by (simp add: translateKeyword_def)
  ultimately have "0 < nat (i + int (length translateKeyword))"
    and "nat (i + int (length translateKeyword)) \<le> length currentString"
    by arith+
  then have "length currentString - nat (i + int (length translateKeyword)) < length currentString"
    by arith
  then show "((substring_from currentString (i + int (length translateKeyword)),
               results @ [translationKeyOf (trim (substring currentString 0 i))]),
              (currentString, results)) \<in> measure (\<lambda>(s, r). length s)"
    by (simp add: substring_from_def)
qed

definition extractTranslationsFromString :: "string \<Rightarrow> string list" where
  "extractTranslationsFromString v = extractTranslationsFromString_loop v []"

text \<open>
  A node of the markup tree, reduced to what the extractor reads from it: the raw
  attribute text \<open>rawAttrs\<close>, the raw inner text \<open>rawText\<close> (either may be undefined),
  the parsed attributes behind \<open>getAttribute\<close> (\<open>None\<close> when the node has no such
  method, as a text node) and the child nodes (an absent \<open>childNodes\<close> and an empty one
  are read alike). The work queue may also hold an array of nodes.
\<close>

datatype markup =
    MarkupNode "string option" "string option" "(string \<times> string) list option" "markup list"
  | MarkupArray "markup list"

datatype error = TypeError | RangeError

fun rawAttrs :: "markup \<Rightarrow> string option" where
  "rawAttrs (MarkupNode a t g cs) = a"
| "rawAttrs (MarkupArray ns) = None"

fun rawText :: "markup \<Rightarrow> string option" where
  "rawText (MarkupNode a t g cs) = t"
| "rawText (MarkupArray ns) = None"

fun childNodes :: "markup \<Rightarrow> markup list" where
  "childNodes (MarkupNode a t g cs) = cs"
| "childNodes (MarkupArray ns) = []"

fun hasGetAttribute :: "markup \<Rightarrow> bool" where
  "hasGetAttribute (MarkupNode a t g cs) = (g \<noteq> None)"
| "hasGetAttribute (MarkupArray ns) = False"

fun getAttribute :: "markup \<Rightarrow> string \<Rightarrow> string option" where
  "getAttribute (MarkupNode a t (Some g) cs) k = map_of g k"
| "getAttribute _ k = None"

text \<open>A string in a condition: undefined and the empty string are false.\<close>

fun str_truthy :: "string option \<Rightarrow> bool" where
  "str_truthy None = False"
| "str_truthy (Some s) = (s \<noteq> [])"

definition getAttributeTranslation :: "markup \<Rightarrow> error + string list" where
  "getAttributeTranslation node =
     (if \<not> hasGetAttribute node then Inr []
      else case getAttribute node ''translate'' of
        Some translationKey \<Rightarrow>
          if translationKey \<noteq> [] then Inr [trim translationKey]
          else (case rawAttrs node of
                  None \<Rightarrow> Inl TypeError
                | Some v \<Rightarrow> Inr (extractTranslationsFromString v))
      | None \<Rightarrow>
          (case rawAttrs node of
             None \<Rightarrow> Inl TypeError
           | Some v \<Rightarrow> Inr (extractTranslationsFromString v)))"

definition getTextTranslation :: "markup \<Rightarrow> string list" where
  "getTextTranslation node =
     (case rawText node of
        None \<Rightarrow> []
      | Some t \<Rightarrow>
          if t = [] \<or> \<not> str_includes t ''translate'' then []
          else extractTranslationsFromString t)"

text \<open>
  What one turn of the loop of \<open>parseHTMLAst\<close> appends to the work queue: the child
  nodes when there are some, the elements when the current node is an array.
\<close>

fun isMarkupArray :: "markup \<Rightarrow> bool" where
  "isMarkupArray (MarkupArray ns) = True"
| "isMarkupArray (MarkupNode a t g cs) = False"

fun arrayItems :: "markup \<Rightarrow> markup list" where
  "arrayItems (MarkupArray ns) = ns"
| "arrayItems (MarkupNode a t g cs) = []"

definition pushedNodes :: "markup \<Rightarrow> markup list" where
  "pushedNodes currentNode =
     (let hasChildNodes = (childNodes currentNode \<noteq> []) in
      if isMarkupArray currentNode \<or> hasChildNodes
      then (if hasChildNodes then childNodes currentNode else arrayItems currentNode)
      else [])"

lemma size_pushedNodes: "size_list size (pushedNodes n) < size n"
  by (cases n) (simp_all add: pushedNodes_def Let_def)

function parseHTMLAst_loop :: "markup list \<Rightarrow> string list \<Rightarrow> error + string list" where
  "parseHTMLAst_loop [] results = Inr results"
| "parseHTMLAst_loop (currentNode # rest) results =
     (let nodesToIterate = rest @ pushedNodes currentNode in
      if str_truthy (rawAttrs currentNode) \<or> str_truthy (rawText currentNode) then
        (case getAttributeTranslation currentNode of
           Inl e \<Rightarrow> Inl e
         | Inr attrValue \<Rightarrow>
             parseHTMLAst_loop nodesToIterate
               (results @ attrValue @ getTextTranslation currentNode))
      else parseHTMLAst_loop nodesToIterate results)"
  by pat_completeness auto
termination
proof (relation "measure (\<lambda>(q, r). size_list size q)")
  show "wf (measure (\<lambda>(q, r). size_list size q))" by simp
next
  fix currentNode :: markup and rest :: "markup list" and results x :: "string list"
    and nodesToIterate :: "markup list"
  assume "nodesToIterate = rest @ pushedNodes currentNode"
  then show "((nodesToIterate, results @ x @ getTextTranslation currentNode),
              (currentNode # rest, results)) \<in> measure (\<lambda>(q, r). size_list size q)"
    using size_pushedNodes [of currentNode] by simp
next
  fix currentNode :: markup and rest :: "markup list" and results :: "string list"
    and nodesToIterate :: "markup list"
  assume "nodesToIterate = rest @ pushedNodes currentNode"
  then show "((nodesToIterate, results), (currentNode # rest, results))
             \<in> measure (\<lambda>(q, r). size_list size q)"
    using size_pushedNodes [of currentNode] by simp
qed

definition parseHTMLAst :: "markup list \<Rightarrow> error + string list" where
  "parseHTMLAst trees = parseHTMLAst_loop trees []"

section \<open>JavaScript values\<close>

text \<open>
  The program extractor works on the syntax trees of the TypeScript parser, and the keys
  it yields are values of these trees. Such a value is a primitive, an array or an
  object. An object is the list of its own properties in insertion order; an array is
  the list of its elements together with its own named properties. The extractor only
  reads these trees, so they are plain data here; numbers are integers. (The objects
  that the resolver changes in place live on a heap, further below.)
\<close>

datatype jsv =
    Undefined
  | Null
  | Bool bool
  | Num int
  | Str string
  | Arr "jsv list" "(string \<times> jsv) list"
  | Obj "(string \<times> jsv) list"

fun truthy :: "jsv \<Rightarrow> bool" where
  "truthy Undefined = False"
| "truthy Null = False"
| "truthy (Bool b) = b"
| "truthy (Num n) = (n \<noteq> 0)"
| "truthy (Str s) = (s \<noteq> [])"
| "truthy (Arr xs nm) = True"
| "truthy (Obj ps) = True"

fun isNullish :: "jsv \<Rightarrow> bool" where
  "isNullish Undefined = True"
| "isNullish Null = True"
| "isNullish _ = False"

text \<open>
  Property names that are canonical decimal numerals (\<open>0\<close>, or digits without a
  leading zero). Such a name below \<open>2^32 - 1\<close> is an array index; lodash's \<open>isIndex\<close>
  accepts every such name below \<open>2^53 - 1\<close>.
\<close>

definition is_digit :: "char \<Rightarrow> bool" where
  "is_digit c = (c \<in> set ''0123456789'')"

definition is_uint_literal :: "string \<Rightarrow> bool" where
  "is_uint_literal s = (s = ''0'' \<or> (s \<noteq> [] \<and> hd s \<noteq> CHR ''0'' \<and> list_all is_digit s))"

definition uint_value :: "string \<Rightarrow> int" where
  "uint_value s = foldl (\<lambda>n c. 10 * n + (of_char c - 48)) 0 s"

definition array_index :: "string \<Rightarrow> nat option" where
  "array_index k =
     (if is_uint_literal k \<and> uint_value k < 4294967295 then Some (nat (uint_value k))
      else None)"

definition isIndex :: "string \<Rightarrow> bool" where
  "isIndex k = (is_uint_literal k \<and> uint_value k < 9007199254740991)"

text \<open>
  \<open>js_prop v k\<close> is the property read \<open>v[k]\<close> of the extractor, on a value that is
  neither \<open>undefined\<close> nor \<open>null\<close> (where JavaScript throws; every caller tests for
  that first). The extractor reads the names \<open>kind\<close>, \<open>expression\<close>, \<open>name\<close>,
  \<open>escapedText\<close>, \<open>text\<close>, \<open>arguments\<close>, \<open>elements\<close>, \<open>left\<close>, \<open>right\<close>, \<open>head\<close>,
  \<open>condition\<close>, \<open>whenTrue\<close>, \<open>whenFalse\<close>, \<open>length\<close> and \<open>undefined\<close>. No prototype
  of a string, a number, a boolean, an array or an object defines one of them, so such
  a read finds an own property or nothing: a string has its length and its characters,
  an array its length, elements and named properties, an object its properties, and a
  missing property reads as \<open>undefined\<close>. What the classes of the parser define by a
  getter (the \<open>text\<close> of an identifier) is given as a property of the node. The
  reads of the resolver, whose names come from the keys, are not of this kind; they
  are modelled with the prototypes, on the heap.
\<close>

fun js_prop :: "jsv \<Rightarrow> string \<Rightarrow> jsv" where
  "js_prop (Obj ps) k = (case map_of ps k of Some v \<Rightarrow> v | None \<Rightarrow> Undefined)"
| "js_prop (Arr xs nm) k =
     (if k = ''length'' then Num (int (length xs))
      else case array_index k of
        Some i \<Rightarrow> if i < length xs then xs ! i else Undefined
      | None \<Rightarrow> (case map_of nm k of Some v \<Rightarrow> v | None \<Rightarrow> Undefined))"
| "js_prop (Str s) k =
     (if k = ''length'' then Num (int (length s))
      else case array_index k of
        Some i \<Rightarrow> if i < length s then Str [s ! i] else Undefined
      | None \<Rightarrow> Undefined)"
| "js_prop _ k = Undefined"

text \<open>
  \<open>k in Object(v)\<close>, as lodash asks it of a path with dots among the fields of the
  extractor; no prototype defines such a name.
\<close>

fun has_prop :: "jsv \<Rightarrow> string \<Rightarrow> bool" where
  "has_prop (Obj ps) k = (map_of ps k \<noteq> None)"
| "has_prop (Arr xs nm) k =
     (k = ''length'' \<or>
      (case array_index k of Some i \<Rightarrow> i < length xs | None \<Rightarrow> map_of nm k \<noteq> None))"
| "has_prop (Str s) k =
     (k = ''length'' \<or> (case array_index k of Some i \<Rightarrow> i < length s | None \<Rightarrow> False))"
| "has_prop _ k = False"

text \<open>\<open>s.split('.')\<close>: the pieces between the separators; never the empty list.\<close>

fun split_on :: "char \<Rightarrow> string \<Rightarrow> string list" where
  "split_on sep [] = [[]]"
| "split_on sep (c # cs) =
     (if c = sep then [] # split_on sep cs
      else (case split_on sep cs of
              w # ws \<Rightarrow> (c # w) # ws
            | [] \<Rightarrow> [[c]]))"

text \<open>
  lodash's \<open>_.get(object, path)\<close> for a path given as a string without brackets. The
  walk stops with \<open>undefined\<close> at the first \<open>undefined\<close> or \<open>null\<close> on the way. A path
  that is itself a property name of the object is read directly. \<open>_.get(object,
  undefined)\<close>, which the source calls when no field matches, reads the property named
  \<open>undefined\<close>.
\<close>

fun baseGet :: "jsv \<Rightarrow> string list \<Rightarrow> jsv" where
  "baseGet v [] = v"
| "baseGet v (k # ks) = (if isNullish v then Undefined else baseGet (js_prop v k) ks)"

definition lodash_get :: "jsv \<Rightarrow> string \<Rightarrow> jsv" where
  "lodash_get object path =
     (if isNullish object then Undefined
      else if has_prop object path then js_prop object path
      else baseGet object (split_on CHR ''.'' path))"

definition lodash_get_undefined :: "jsv \<Rightarrow> jsv" where
  "lodash_get_undefined object =
     (if isNullish object then Undefined else js_prop object ''undefined'')"

section \<open>The program extractor\<close>

fun map_err :: "('a \<Rightarrow> error + 'b) \<Rightarrow> 'a list \<Rightarrow> error + 'b list" where
  "map_err f [] = Inr []"
| "map_err f (x # xs) =
     (case f x of
        Inl e \<Rightarrow> Inl e
      | Inr y \<Rightarrow> (case map_err f xs of Inl e \<Rightarrow> Inl e | Inr ys \<Rightarrow> Inr (y # ys)))"

definition validFields :: "string list" where
  "validFields =
     [''text'',
      ''expression.escapedText'',
      ''name.escapedText'',
      ''expression.name.escapedText'',
      ''left.expression.name.escapedText'',
      ''right.expression.name.escapedText'',
      ''head.text'',
      ''condition.expression.name.escapedText'',
      ''condition.expression.escapedText'',
      ''condition.escapedText'',
      ''whenTrue.text'',
      ''whenFalse.text'']"

text \<open>
  The last line of the callback: \<open>prettifyKey(name)\<close> calls \<open>name.replace\<close>, which
  exists on a string only.
\<close>

fun unresolvedKey :: "jsv \<Rightarrow> error + jsv" where
  "unresolvedKey (Str s) = Inr (Str (UNABLE_TO_RESOLVE_VALUE @ '':'' @ prettifyKey s))"
| "unresolvedKey _ = Inl TypeError"

text \<open>\<open>element => element.text\<close>\<close>

definition elementText :: "jsv \<Rightarrow> error + jsv" where
  "elementText element = (if isNullish element then Inl TypeError else Inr (js_prop element ''text''))"

text \<open>
  The callback of \<open>argumentNodes.map\<close>: the key inferred from one argument node.
  \<open>node.elements.map\<close> exists when \<open>node.elements\<close> is an array.
\<close>

definition inferKey :: "jsv \<Rightarrow> error + jsv" where
  "inferKey node =
     (let field = find (\<lambda>validField. truthy (lodash_get node validField)) validFields;
          name = (case field of Some f \<Rightarrow> lodash_get node f | None \<Rightarrow> lodash_get_undefined node)
      in if truthy name then Inr name
         else if isNullish node then Inl TypeError
         else if \<not> truthy (js_prop node ''elements'') then unresolvedKey name
         else (case js_prop node ''elements'' of
                 Arr es nm \<Rightarrow>
                   (case map_err elementText es of
                      Inl e \<Rightarrow> Inl e
                    | Inr elements \<Rightarrow>
                        if elements \<noteq> [] then Inr (Arr elements []) else unresolvedKey name)
               | _ \<Rightarrow> Inl TypeError))"

text \<open>
  \<open>const [fnArguments] = node.arguments\<close>: the first element of an array (or the first
  character of a string); a value that cannot be iterated throws.
\<close>

fun firstOf :: "jsv \<Rightarrow> error + jsv" where
  "firstOf (Arr [] nm) = Inr Undefined"
| "firstOf (Arr (x # xs) nm) = Inr x"
| "firstOf (Str []) = Inr Undefined"
| "firstOf (Str (c # cs)) = Inr (Str [c])"
| "firstOf _ = Inl TypeError"

fun argumentNodes :: "jsv \<Rightarrow> jsv list" where
  "argumentNodes (Arr xs nm) = xs"
| "argumentNodes fnArguments = [fnArguments]"

text \<open>
  What \<open>parseFiles\<close> pushes on \<open>parseResults\<close> at one node, before it visits the
  children.
\<close>

definition translationKeys :: "jsv \<Rightarrow> error + jsv list" where
  "translationKeys node =
     (if truthy (js_prop node ''expression'') \<and> js_prop node ''kind'' = Num 207 then
        if truthy (js_prop node ''expression'')
           \<and> truthy (js_prop (js_prop node ''expression'') ''name'')
           \<and> js_prop (js_prop (js_prop node ''expression'') ''name'') ''escapedText'' = Str ''instant''
        then (case firstOf (js_prop node ''arguments'') of
                Inl e \<Rightarrow> Inl e
              | Inr fnArguments \<Rightarrow> map_err inferKey (argumentNodes fnArguments))
        else Inr []
      else Inr [])"

text \<open>
  \<open>node.forEachChild\<close> belongs to the TypeScript library. It visits the child nodes of
  a node, which are the values of its node-valued properties and the elements of its
  node-array-valued properties; here they are visited in the order of the properties.
\<close>

fun isNode :: "jsv \<Rightarrow> bool" where
  "isNode (Obj ps) = True"
| "isNode _ = False"

fun childrenOfProperty :: "jsv \<Rightarrow> jsv list" where
  "childrenOfProperty (Obj ps) = [Obj ps]"
| "childrenOfProperty (Arr xs nm) = filter isNode xs"
| "childrenOfProperty _ = []"

fun forEachChild :: "jsv \<Rightarrow> jsv list" where
  "forEachChild (Obj ps) = concat (map (\<lambda>p. childrenOfProperty (snd p)) ps)"
| "forEachChild _ = []"

lemma prop_size: "p \<in> set ps \<Longrightarrow> size (snd p) < size (Obj ps)"
  by (induction ps) auto

lemma elem_size: "x \<in> set xs \<Longrightarrow> size x < size (Arr xs nm)"
  by (induction xs) auto

lemma childrenOfProperty_size: "c \<in> set (childrenOfProperty v) \<Longrightarrow> size c \<le> size v"
proof (cases v)
  case (Arr xs nm)
  assume "c \<in> set (childrenOfProperty v)"
  with Arr have "c \<in> set xs" by simp
  from elem_size [OF this, of nm] Arr show ?thesis by simp
qed auto

lemma forEachChild_size: "c \<in> set (forEachChild n) \<Longrightarrow> size c < size n"
proof (cases n)
  case (Obj ps)
  assume "c \<in> set (forEachChild n)"
  with Obj obtain p where p: "p \<in> set ps" and c: "c \<in> set (childrenOfProperty (snd p))"
    by auto
  from childrenOfProperty_size [OF c] prop_size [OF p] Obj show ?thesis by simp
qed simp_all

text \<open>
  \<open>parseFiles\<close>: the keys of the node are pushed on \<open>parseResults\<close>, then every child
  is visited in turn. An exception ends the whole traversal. A value without the method
  \<open>forEachChild\<close> is no node.
\<close>

function parseFiles :: "jsv \<Rightarrow> jsv list \<Rightarrow> error + jsv list" where
  "parseFiles node parseResults =
     (if \<not> isNode node then Inl TypeError
      else case translationKeys node of
        Inl e \<Rightarrow> Inl e
      | Inr keys \<Rightarrow>
          fold (\<lambda>child r. case r of Inl e \<Rightarrow> Inl e | Inr acc \<Rightarrow> parseFiles child acc)
               (forEachChild node) (Inr (parseResults @ keys)))"
  by pat_completeness auto
termination
  by (relation "measure (\<lambda>(n, r). size n)") (simp_all add: forEachChild_size)

text \<open>\<open>parseTSAst\<close>, given the root node of each file.\<close>

definition parseTSAst :: "jsv list \<Rightarrow> error + jsv list" where
  "parseTSAst rootNodes =
     fold (\<lambda>rootNode r. case r of Inl e \<Rightarrow> Inl e | Inr acc \<Rightarrow> parseFiles rootNode acc)
          rootNodes (Inr [])"

text \<open>
  The nodes that \<open>parseFiles\<close> visits from a node on, in the order of the visits: the
  node itself, then, child by child, the nodes below.
\<close>

function nodesOf :: "jsv \<Rightarrow> jsv list" where
  "nodesOf node = node # concat (map nodesOf (forEachChild node))"
  by pat_completeness auto
termination
  by (relation "measure size") (simp_all add: forEachChild_size)

section \<open>Objects on the heap\<close>

text \<open>
  The resolver builds its results by assignments through lodash's \<open>_.set\<close>, which
  change objects in place, and it stores values of the catalog in the results by
  reference. Its objects therefore live on a heap: a value is a primitive or the address
  of an object. An object has a prototype, is a function or not, and has own properties
  in the order in which JavaScript lists them; an array has its elements as well
  (\<open>None\<close> is a hole). An own property is a data property, a data property that
  cannot be written (as the \<open>name\<close> of a function), the accessor \<open>__proto__\<close> of
  \<open>Object.prototype\<close>, or an accessor that throws (as \<open>caller\<close> of
  \<open>Function.prototype\<close>). Numbers are integers.
\<close>

datatype val = VUndefined | VNull | VBool bool | VNum int | VStr string | VRef nat

datatype slot = Data val | Fixed val | ProtoAccessor | Restricted

record jsobject =
  proto :: val
  callable :: bool
  elems :: "val option list option"
  props :: "(string \<times> slot) list"

type_synonym heap = "jsobject list"

text \<open>
  What the JavaScript runtime provides: the prototypes of objects, arrays, strings,
  numbers and booleans, which are objects of the heap the program starts with, and the
  conversion of a value to an array length (\<open>None\<close> when the value is no valid length).
\<close>

record runtime =
  objectProto :: val
  arrayProto :: val
  stringProto :: val
  numberProto :: val
  booleanProto :: val
  arrayLength :: "heap \<Rightarrow> val \<Rightarrow> nat option"

fun truthyV :: "val \<Rightarrow> bool" where
  "truthyV VUndefined = False"
| "truthyV VNull = False"
| "truthyV (VBool b) = b"
| "truthyV (VNum n) = (n \<noteq> 0)"
| "truthyV (VStr s) = (s \<noteq> [])"
| "truthyV (VRef a) = True"

fun isObjectV :: "val \<Rightarrow> bool" where
  "isObjectV (VRef a) = True"
| "isObjectV _ = False"

fun isNullishV :: "val \<Rightarrow> bool" where
  "isNullishV VUndefined = True"
| "isNullishV VNull = True"
| "isNullishV _ = False"

definition emptyObject :: "val \<Rightarrow> jsobject" where
  "emptyObject p = \<lparr>proto = p, callable = False, elems = None, props = []\<rparr>"

definition emptyArray :: "val \<Rightarrow> jsobject" where
  "emptyArray p = \<lparr>proto = p, callable = False, elems = Some [], props = []\<rparr>"

text \<open>An address that the heap does not hold reads as an object without properties.\<close>

definition objAt :: "heap \<Rightarrow> nat \<Rightarrow> jsobject" where
  "objAt h a = (if a < length h then h ! a else emptyObject VNull)"

definition alloc :: "heap \<Rightarrow> jsobject \<Rightarrow> heap \<times> val" where
  "alloc h ob = (h @ [ob], VRef (length h))"

subsection \<open>Reading a property\<close>

text \<open>The own property \<open>k\<close> of an object, and of a string.\<close>

definition ownSlot :: "jsobject \<Rightarrow> string \<Rightarrow> slot option" where
  "ownSlot ob k =
     (case elems ob of
        None \<Rightarrow> map_of (props ob) k
      | Some xs \<Rightarrow>
          if k = ''length'' then Some (Data (VNum (int (length xs))))
          else (case array_index k of
                  Some i \<Rightarrow>
                    if i < length xs then
                      (case xs ! i of Some x \<Rightarrow> Some (Data x) | None \<Rightarrow> map_of (props ob) k)
                    else map_of (props ob) k
                | None \<Rightarrow> map_of (props ob) k))"

definition stringOwn :: "string \<Rightarrow> string \<Rightarrow> slot option" where
  "stringOwn s k =
     (if k = ''length'' then Some (Fixed (VNum (int (length s))))
      else (case array_index k of
              Some i \<Rightarrow> if i < length s then Some (Fixed (VStr [s ! i])) else None
            | None \<Rightarrow> None))"

text \<open>
  The search along the prototype chain, starting at the object \<open>v\<close>. A chain is at
  most as long as the heap, which bounds the search.
\<close>

fun findSlot :: "heap \<Rightarrow> nat \<Rightarrow> val \<Rightarrow> string \<Rightarrow> slot option" where
  "findSlot h 0 v k = None"
| "findSlot h (Suc n) (VRef a) k =
     (case ownSlot (objAt h a) k of
        Some s \<Rightarrow> Some s
      | None \<Rightarrow> findSlot h n (proto (objAt h a)) k)"
| "findSlot h (Suc n) v k = None"

text \<open>The prototype of a value, and the property \<open>k\<close> that a read of \<open>v[k]\<close> finds.\<close>

fun protoOf :: "runtime \<Rightarrow> heap \<Rightarrow> val \<Rightarrow> val" where
  "protoOf rt h (VRef a) = proto (objAt h a)"
| "protoOf rt h (VStr s) = stringProto rt"
| "protoOf rt h (VNum n) = numberProto rt"
| "protoOf rt h (VBool b) = booleanProto rt"
| "protoOf rt h v = VNull"

fun lookupSlot :: "runtime \<Rightarrow> heap \<Rightarrow> val \<Rightarrow> string \<Rightarrow> slot option" where
  "lookupSlot rt h (VRef a) k = findSlot h (Suc (length h)) (VRef a) k"
| "lookupSlot rt h (VStr s) k =
     (case stringOwn s k of
        Some sl \<Rightarrow> Some sl
      | None \<Rightarrow> findSlot h (Suc (length h)) (stringProto rt) k)"
| "lookupSlot rt h v k = findSlot h (Suc (length h)) (protoOf rt h v) k"

text \<open>\<open>v[k]\<close>. On \<open>undefined\<close> and \<open>null\<close> the read throws.\<close>

definition getProp :: "runtime \<Rightarrow> heap \<Rightarrow> val \<Rightarrow> string \<Rightarrow> error + val" where
  "getProp rt h v k =
     (if isNullishV v then Inl TypeError
      else case lookupSlot rt h v k of
        None \<Rightarrow> Inr VUndefined
      | Some (Data x) \<Rightarrow> Inr x
      | Some (Fixed x) \<Rightarrow> Inr x
      | Some ProtoAccessor \<Rightarrow> Inr (protoOf rt h v)
      | Some Restricted \<Rightarrow> Inl TypeError)"

text \<open>\<open>hasOwnProperty.call(v, k)\<close> and \<open>k in Object(v)\<close>.\<close>

fun hasOwn :: "heap \<Rightarrow> val \<Rightarrow> string \<Rightarrow> bool" where
  "hasOwn h (VRef a) k = (ownSlot (objAt h a) k \<noteq> None)"
| "hasOwn h (VStr s) k = (stringOwn s k \<noteq> None)"
| "hasOwn h v k = False"

definition hasProp :: "runtime \<Rightarrow> heap \<Rightarrow> val \<Rightarrow> string \<Rightarrow> bool" where
  "hasProp rt h v k = (lookupSlot rt h v k \<noteq> None)"

subsection \<open>Writing a property\<close>

text \<open>
  The order of the own properties: names that are array indices come first, in
  ascending order, then the other names in the order of their creation.
\<close>

fun insertIndexed :: "(string \<times> slot) list \<Rightarrow> string \<Rightarrow> nat \<Rightarrow> slot \<Rightarrow> (string \<times> slot) list" where
  "insertIndexed [] k i s = [(k, s)]"
| "insertIndexed (p # ps) k i s =
     (case array_index (fst p) of
        Some j \<Rightarrow> if j < i then p # insertIndexed ps k i s else (k, s) # p # ps
      | None \<Rightarrow> (k, s) # p # ps)"

definition putSlot :: "(string \<times> slot) list \<Rightarrow> string \<Rightarrow> slot \<Rightarrow> (string \<times> slot) list" where
  "putSlot ps k s =
     (if map_of ps k \<noteq> None then map (\<lambda>p. if fst p = k then (k, s) else p) ps
      else (case array_index k of
              Some i \<Rightarrow> insertIndexed ps k i s
            | None \<Rightarrow> ps @ [(k, s)]))"

text \<open>\<open>array[i] = value\<close>: a write past the end leaves holes.\<close>

definition set_element :: "val option list \<Rightarrow> nat \<Rightarrow> val \<Rightarrow> val option list" where
  "set_element xs i v =
     (if i < length xs then xs[i := Some v]
      else xs @ replicate (i - length xs) None @ [Some v])"

text \<open>The own data property \<open>k\<close> is created or overwritten.\<close>

definition defineOwn :: "jsobject \<Rightarrow> string \<Rightarrow> val \<Rightarrow> jsobject" where
  "defineOwn ob k v =
     (case elems ob of
        None \<Rightarrow> ob\<lparr>props := putSlot (props ob) k (Data v)\<rparr>
      | Some xs \<Rightarrow>
          (case array_index k of
             Some i \<Rightarrow> ob\<lparr>elems := Some (set_element xs i v)\<rparr>
           | None \<Rightarrow> ob\<lparr>props := putSlot (props ob) k (Data v)\<rparr>))"

text \<open>Whether the object at \<open>a\<close> lies on the prototype chain that starts at \<open>v\<close>.\<close>

fun inChain :: "heap \<Rightarrow> nat \<Rightarrow> val \<Rightarrow> nat \<Rightarrow> bool" where
  "inChain h 0 v a = False"
| "inChain h (Suc n) (VRef b) a = (b = a \<or> inChain h n (proto (objAt h b)) a)"
| "inChain h (Suc n) v a = False"

text \<open>
  The assignment \<open>object[k] = v\<close>. In strict code (\<open>Object.assign\<close>) a write that fails
  throws; lodash is not strict code, so there it is ignored. A write of the \<open>length\<close>
  of an array resizes the array or throws a RangeError. When the property is found as
  a data property, own or inherited, or not at all, the own property is written; the
  setter of \<open>__proto__\<close> changes the prototype when it is given an object or \<open>null\<close>.
\<close>

definition setProp :: "bool \<Rightarrow> runtime \<Rightarrow> heap \<Rightarrow> val \<Rightarrow> string \<Rightarrow> val \<Rightarrow> error + heap" where
  "setProp strict rt h object k v =
     (case object of
        VRef a \<Rightarrow>
          (let ob = objAt h a in
           case elems ob of
             Some xs \<Rightarrow>
               if k = ''length'' then
                 (case arrayLength rt h v of
                    Some n \<Rightarrow>
                      Inr (h[a := ob\<lparr>elems := Some (take n xs @ replicate (n - length xs) None)\<rparr>])
                  | None \<Rightarrow> Inl RangeError)
               else
                 (case lookupSlot rt h object k of
                    None \<Rightarrow> Inr (h[a := defineOwn ob k v])
                  | Some (Data x) \<Rightarrow> Inr (h[a := defineOwn ob k v])
                  | Some (Fixed x) \<Rightarrow> if strict then Inl TypeError else Inr h
                  | Some ProtoAccessor \<Rightarrow>
                      if isObjectV v \<or> v = VNull then
                        if inChain h (Suc (length h)) v a then Inl TypeError
                        else Inr (h[a := ob\<lparr>proto := v\<rparr>])
                      else Inr h
                  | Some Restricted \<Rightarrow> Inl TypeError)
           | None \<Rightarrow>
               (case lookupSlot rt h object k of
                  None \<Rightarrow> Inr (h[a := defineOwn ob k v])
                | Some (Data x) \<Rightarrow> Inr (h[a := defineOwn ob k v])
                | Some (Fixed x) \<Rightarrow> if strict then Inl TypeError else Inr h
                | Some ProtoAccessor \<Rightarrow>
                    if isObjectV v \<or> v = VNull then
                      if inChain h (Suc (length h)) v a then Inl TypeError
                      else Inr (h[a := ob\<lparr>proto := v\<rparr>])
                    else Inr h
                | Some Restricted \<Rightarrow> Inl TypeError))
      | _ \<Rightarrow>
          (case lookupSlot rt h object k of
             Some Restricted \<Rightarrow> Inl TypeError
           | _ \<Rightarrow> if strict then Inl TypeError else Inr h))"

subsection \<open>lodash\<close>

text \<open>
  \<open>assignValue\<close> and \<open>baseAssignValue\<close>: the assignment is left out when the object
  has the own property with this very value (for the value \<open>undefined\<close> after the test
  \<open>key in object\<close>, which throws on a primitive); the name \<open>__proto__\<close> is written as
  an own data property.
\<close>

definition baseAssignValue :: "runtime \<Rightarrow> heap \<Rightarrow> val \<Rightarrow> string \<Rightarrow> val \<Rightarrow> error + heap" where
  "baseAssignValue rt h object key v =
     (if key = ''__proto__'' then
        (case object of
           VRef a \<Rightarrow> Inr (h[a := defineOwn (objAt h a) key v])
         | _ \<Rightarrow> Inl TypeError)
      else setProp False rt h object key v)"

definition assignValue :: "runtime \<Rightarrow> heap \<Rightarrow> val \<Rightarrow> string \<Rightarrow> val \<Rightarrow> error + heap" where
  "assignValue rt h object key v =
     (case getProp rt h object key of
        Inl e \<Rightarrow> Inl e
      | Inr objValue \<Rightarrow>
          if \<not> (hasOwn h object key \<and> objValue = v) then baseAssignValue rt h object key v
          else if v = VUndefined then
            (if \<not> isObjectV object then Inl TypeError
             else if \<not> hasProp rt h object key then baseAssignValue rt h object key v
             else Inr h)
          else Inr h)"

text \<open>
  \<open>baseSet\<close>, the loop of \<open>_.set(object, path, value)\<close> for a path given as an array of
  names. The loop ends when \<open>nested\<close> is \<open>undefined\<close> or \<open>null\<close>, and the whole call
  returns at once at one of the names \<open>__proto__\<close>, \<open>constructor\<close> and \<open>prototype\<close>.
  Where a name on the way holds no object, an array is created when the next name is an
  index and an object otherwise.
\<close>

fun baseSet :: "runtime \<Rightarrow> heap \<Rightarrow> val \<Rightarrow> string list \<Rightarrow> val \<Rightarrow> error + heap" where
  "baseSet rt h nested [] v = Inr h"
| "baseSet rt h nested (key # rest) v =
     (if isNullishV nested then Inr h
      else if key = ''__proto__'' \<or> key = ''constructor'' \<or> key = ''prototype'' then Inr h
      else if rest = [] then
        (case assignValue rt h nested key v of
           Inl e \<Rightarrow> Inl e
         | Inr h' \<Rightarrow> (case getProp rt h' nested key of Inl e \<Rightarrow> Inl e | Inr nested' \<Rightarrow> Inr h'))
      else
        (case getProp rt h nested key of
           Inl e \<Rightarrow> Inl e
         | Inr objValue \<Rightarrow>
             (let (h1, newValue) =
                    (if isObjectV objValue then (h, objValue)
                     else if isIndex (hd rest) then alloc h (emptyArray (arrayProto rt))
                     else alloc h (emptyObject (objectProto rt)))
              in case assignValue rt h1 nested key newValue of
                   Inl e \<Rightarrow> Inl e
                 | Inr h2 \<Rightarrow>
                     (case getProp rt h2 nested key of
                        Inl e \<Rightarrow> Inl e
                      | Inr nested' \<Rightarrow> baseSet rt h2 nested' rest v))))"

definition lodash_set :: "runtime \<Rightarrow> heap \<Rightarrow> val \<Rightarrow> string list \<Rightarrow> val \<Rightarrow> error + heap" where
  "lodash_set rt h object path v =
     (if \<not> isObjectV object then Inr h else baseSet rt h object path v)"

section \<open>The resolver\<close>

subsection \<open>Loading the catalog\<close>

text \<open>
  The content of a catalog file as \<open>JSON.parse\<close> reads it (numbers are integers).
  Reading the file and parsing its text are outside the model.
\<close>

datatype json =
    JNull
  | JBool bool
  | JNum int
  | JStr string
  | JArr "json list"
  | JObj "(string \<times> json) list"

text \<open>
  \<open>JSON.parse\<close> builds the value on the heap: every object and array of the document
  is a new object, and every member becomes an own data property, also one named
  \<open>__proto__\<close>; of two members with one name the later one stays.
\<close>

definition pushElement :: "jsobject \<Rightarrow> val \<Rightarrow> jsobject" where
  "pushElement ob v =
     ob\<lparr>elems := Some ((case elems ob of Some xs \<Rightarrow> xs | None \<Rightarrow> []) @ [Some v])\<rparr>"

fun parseJSON :: "runtime \<Rightarrow> heap \<Rightarrow> json \<Rightarrow> heap \<times> val"
  and parseMembers :: "runtime \<Rightarrow> heap \<Rightarrow> nat \<Rightarrow> (string \<times> json) list \<Rightarrow> heap"
  and parseElements :: "runtime \<Rightarrow> heap \<Rightarrow> nat \<Rightarrow> json list \<Rightarrow> heap" where
  "parseJSON rt h JNull = (h, VNull)"
| "parseJSON rt h (JBool b) = (h, VBool b)"
| "parseJSON rt h (JNum n) = (h, VNum n)"
| "parseJSON rt h (JStr s) = (h, VStr s)"
| "parseJSON rt h (JArr js) =
     (parseElements rt (h @ [emptyArray (arrayProto rt)]) (length h) js, VRef (length h))"
| "parseJSON rt h (JObj ms) =
     (parseMembers rt (h @ [emptyObject (objectProto rt)]) (length h) ms, VRef (length h))"
| "parseMembers rt h a [] = h"
| "parseMembers rt h a (m # ms) =
     (case parseJSON rt h (snd m) of
        (h1, v) \<Rightarrow> parseMembers rt (h1[a := defineOwn (objAt h1 a) (fst m) v]) a ms)"
| "parseElements rt h a [] = h"
| "parseElements rt h a (j # js) =
     (case parseJSON rt h j of
        (h1, v) \<Rightarrow>
          parseElements rt (h1[a := pushElement (objAt h1 a) v]) a js)"

text \<open>The decimal spelling of an index.\<close>

function decimal :: "nat \<Rightarrow> string" where
  "decimal n =
     (if n < 10 then [''0123456789'' ! n]
      else decimal (n div 10) @ [''0123456789'' ! (n mod 10)])"
  by pat_completeness auto
termination
  by (relation "measure id") auto

text \<open>
  The own enumerable property names of a value, in the order of \<open>Object.assign\<close>:
  indices first. The properties of the built-in objects that cannot be written, and
  their accessors, are not enumerable.
\<close>

definition isData :: "slot \<Rightarrow> bool" where
  "isData s = (case s of Data v \<Rightarrow> True | _ \<Rightarrow> False)"

fun ownKeys :: "heap \<Rightarrow> val \<Rightarrow> string list" where
  "ownKeys h (VRef a) =
     (case elems (objAt h a) of
        None \<Rightarrow> []
      | Some xs \<Rightarrow> map decimal (filter (\<lambda>i. xs ! i \<noteq> None) [0 ..< length xs]))
     @ map fst (filter (\<lambda>p. isData (snd p)) (props (objAt h a)))"
| "ownKeys h (VStr s) = map decimal [0 ..< length s]"
| "ownKeys h v = []"

text \<open>
  \<open>Object.assign(target, source)\<close>: every own enumerable property of the source is
  read and assigned to the target, in strict mode.
\<close>

fun assignKeys :: "runtime \<Rightarrow> heap \<Rightarrow> val \<Rightarrow> val \<Rightarrow> string list \<Rightarrow> error + heap" where
  "assignKeys rt h target source [] = Inr h"
| "assignKeys rt h target source (k # ks) =
     (case getProp rt h source k of
        Inl e \<Rightarrow> Inl e
      | Inr v \<Rightarrow>
          (case setProp True rt h target k v of
             Inl e \<Rightarrow> Inl e
           | Inr h' \<Rightarrow> assignKeys rt h' target source ks))"

definition objectAssign :: "runtime \<Rightarrow> heap \<Rightarrow> val \<Rightarrow> val \<Rightarrow> error + heap" where
  "objectAssign rt h target source = assignKeys rt h target source (ownKeys h source)"

text \<open>The body of \<open>paths.forEach\<close> (lines 223 to 229), for the documents of the files.\<close>

fun loadDocuments :: "runtime \<Rightarrow> heap \<Rightarrow> val \<Rightarrow> json list \<Rightarrow> error + heap" where
  "loadDocuments rt h translationsObject [] = Inr h"
| "loadDocuments rt h translationsObject (d # ds) =
     (case parseJSON rt h d of
        (h1, content) \<Rightarrow>
          (case objectAssign rt h1 translationsObject content of
             Inl e \<Rightarrow> Inl e
           | Inr h2 \<Rightarrow> loadDocuments rt h2 translationsObject ds))"

subsection \<open>Filing a key\<close>

text \<open>
  The walk of line 233: \<open>path.reduce((acc, current) => acc ? acc[current] : "",
  translationsObject)\<close>. The read \<open>acc[current]\<close> finds inherited properties too.
\<close>

fun lookupValue :: "runtime \<Rightarrow> heap \<Rightarrow> val \<Rightarrow> string list \<Rightarrow> error + val" where
  "lookupValue rt h acc [] = Inr acc"
| "lookupValue rt h acc (current # rest) =
     (if truthyV acc then
        (case getProp rt h acc current of
           Inl e \<Rightarrow> Inl e
         | Inr v \<Rightarrow> lookupValue rt h v rest)
      else lookupValue rt h (VStr []) rest)"

text \<open>
  The callback of \<open>translationKeys.reduce\<close> (lines 231 to 244) for one key. A key that
  is not a string has no method \<open>split\<close>, so the call throws. The value found in the
  catalog is stored as it is: when it is an object, the result refers to the object of
  the catalog.
\<close>

fun fileKey :: "runtime \<Rightarrow> heap \<Rightarrow> val \<Rightarrow> val \<Rightarrow> val \<Rightarrow> jsv \<Rightarrow> error + heap" where
  "fileKey rt h translationsObject acc unresolvedTranslations (Str key) =
     (let path = split_on CHR ''.'' key in
      case lookupValue rt h translationsObject path of
        Inl e \<Rightarrow> Inl e
      | Inr v \<Rightarrow>
          if truthyV v then lodash_set rt h acc path v
          else lodash_set rt h unresolvedTranslations path (VStr key))"
| "fileKey rt h translationsObject acc unresolvedTranslations key = Inl TypeError"

fun fileKeys :: "runtime \<Rightarrow> heap \<Rightarrow> val \<Rightarrow> val \<Rightarrow> val \<Rightarrow> jsv list \<Rightarrow> error + heap" where
  "fileKeys rt h translationsObject acc unresolvedTranslations [] = Inr h"
| "fileKeys rt h translationsObject acc unresolvedTranslations (key # rest) =
     (case fileKey rt h translationsObject acc unresolvedTranslations key of
        Inl e \<Rightarrow> Inl e
      | Inr h' \<Rightarrow> fileKeys rt h' translationsObject acc unresolvedTranslations rest)"

text \<open>
  \<open>createJSONTranslations\<close>, up to the writing of the two files: the heap at the end,
  with \<open>resolvedTranslations\<close> and \<open>unresolvedTranslations\<close>.
\<close>

definition createJSONTranslations ::
    "runtime \<Rightarrow> heap \<Rightarrow> json list \<Rightarrow> jsv list \<Rightarrow> error + heap \<times> val \<times> val" where
  "createJSONTranslations rt h documents keys =
     (let (h1, unresolvedTranslations) = alloc h (emptyObject (objectProto rt));
          (h2, translationsObject) = alloc h1 (emptyObject (objectProto rt))
      in case loadDocuments rt h2 translationsObject documents of
           Inl e \<Rightarrow> Inl e
         | Inr h3 \<Rightarrow>
             (let (h4, acc) = alloc h3 (emptyObject (objectProto rt))
              in case fileKeys rt h4 translationsObject acc unresolvedTranslations keys of
                   Inl e \<Rightarrow> Inl e
                 | Inr h5 \<Rightarrow> Inr (h5, acc, unresolvedTranslations)))"

subsection \<open>The whole run\<close>

text \<open>\<open>Array.prototype.flat()\<close>: one level of arrays is spread.\<close>

fun flatItem :: "jsv \<Rightarrow> jsv list" where
  "flatItem (Arr xs nm) = xs"
| "flatItem v = [v]"

definition flat :: "jsv list \<Rightarrow> jsv list" where
  "flat xs = concat (map flatItem xs)"

text \<open>
  \<open>[...new Set([...results])]\<close>: the first occurrence of each value is kept. A set
  compares primitive values by value and objects by identity; the objects of a tree
  are all different.
\<close>

fun sameValueZero :: "jsv \<Rightarrow> jsv \<Rightarrow> bool" where
  "sameValueZero (Arr xs nm) y = False"
| "sameValueZero (Obj ps) y = False"
| "sameValueZero x y = (x = y)"

definition setAdd :: "jsv \<Rightarrow> jsv list \<Rightarrow> jsv list" where
  "setAdd x seen = (if list_ex (\<lambda>y. sameValueZero y x) seen then seen else seen @ [x])"

definition filterResults :: "jsv list \<Rightarrow> jsv list" where
  "filterResults results = fold setAdd results []"

text \<open>
  Lines 13 to 16 of the script, given the parsed markup trees and the root nodes of the
  program files; and line 18 with them.
\<close>

definition filteredResults :: "markup list \<Rightarrow> jsv list \<Rightarrow> error + jsv list" where
  "filteredResults trees rootNodes =
     (case parseHTMLAst trees of
        Inl e \<Rightarrow> Inl e
      | Inr htmlTranslationKeys \<Rightarrow>
          (case parseTSAst rootNodes of
             Inl e \<Rightarrow> Inl e
           | Inr tsResults \<Rightarrow>
               Inr (filterResults (map Str htmlTranslationKeys @ flat tsResults))))"

definition extractTranslations ::
    "runtime \<Rightarrow> heap \<Rightarrow> json list \<Rightarrow> markup list \<Rightarrow> jsv list \<Rightarrow> error + heap \<times> val \<times> val" where
  "extractTranslations rt h documents trees rootNodes =
     (case filteredResults trees rootNodes of
        Inl e \<Rightarrow> Inl e
      | Inr keys \<Rightarrow> createJSONTranslations rt h documents keys)"

subsection \<open>Reading the results\<close>


text \<open>
  \<open>JSON.stringify\<close>: the document written for a value, if any. Of an array the
  elements are written, where a hole, \<open>undefined\<close> or a function becomes \<open>null\<close>; of
  an object the own data properties, without those that hold \<open>undefined\<close> or a
  function. The descent is bounded: a chain of objects longer than the heap runs in a
  circle, for which \<open>JSON.stringify\<close> throws. (No object here has a method
  \<open>toJSON\<close>.)
\<close>

fun stringify :: "nat \<Rightarrow> heap \<Rightarrow> val \<Rightarrow> error + json option" where
  "stringify n h VUndefined = Inr None"
| "stringify n h VNull = Inr (Some JNull)"
| "stringify n h (VBool b) = Inr (Some (JBool b))"
| "stringify n h (VNum i) = Inr (Some (JNum i))"
| "stringify n h (VStr s) = Inr (Some (JStr s))"
| "stringify 0 h (VRef a) = Inl TypeError"
| "stringify (Suc n) h (VRef a) =
     (if callable (objAt h a) then Inr None
      else case elems (objAt h a) of
        Some xs \<Rightarrow>
          (case map_err (\<lambda>x. case x of
                                None \<Rightarrow> Inr JNull
                              | Some v \<Rightarrow>
                                  (case stringify n h v of
                                     Inl e \<Rightarrow> Inl e
                                   | Inr None \<Rightarrow> Inr JNull
                                   | Inr (Some j) \<Rightarrow> Inr j)) xs of
             Inl e \<Rightarrow> Inl e
           | Inr js \<Rightarrow> Inr (Some (JArr js)))
      | None \<Rightarrow>
          (case map_err (\<lambda>p. case snd p of
                                Data v \<Rightarrow>
                                  (case stringify n h v of
                                     Inl e \<Rightarrow> Inl e
                                   | Inr None \<Rightarrow> Inr []
                                   | Inr (Some j) \<Rightarrow> Inr [(fst p, j)])
                              | _ \<Rightarrow> Inr []) (props (objAt h a)) of
             Inl e \<Rightarrow> Inl e
           | Inr ms \<Rightarrow> Inr (Some (JObj (concat ms)))))"

text \<open>
  Lines 216 to 250: the documents written to \<open>translations.json\<close> and to
  \<open>unresolved-translations.json\<close>.
\<close>

definition translationFiles ::
    "runtime \<Rightarrow> heap \<Rightarrow> json list \<Rightarrow> jsv list \<Rightarrow> error + json option \<times> json option" where
  "translationFiles rt h documents keys =
     (case createJSONTranslations rt h documents keys of
        Inl e \<Rightarrow> Inl e
      | Inr (h', resolvedTranslations, unresolvedTranslations) \<Rightarrow>
          (case stringify (Suc (length h')) h' resolvedTranslations of
             Inl e \<Rightarrow> Inl e
           | Inr r \<Rightarrow>
               (case stringify (Suc (length h')) h' unresolvedTranslations of
                  Inl e \<Rightarrow> Inl e
                | Inr u \<Rightarrow> Inr (r, u))))"

subsection \<open>Ordinary names\<close>




section \<open>The extractors on a store\<close>

text \<open>
  The extractors collect their results in arrays that they change in place:
  \<open>parseHTMLAst\<close> shifts nodes off its work queue \<open>nodesToIterate\<close> and pushes the keys
  on \<open>results\<close>, \<open>parseFiles\<close> pushes on the array \<open>parseResults\<close> of the enclosing call
  of \<open>parseTSAst\<close>. Here the arrays are cells of a store, named by their index, and
  every statement of the source that creates an array adds a cell. The store may hold
  any number of other arrays, such as those that an earlier call has left behind.
\<close>

record store =
  nodeArrays :: "markup list list"
  keyArrays :: "string list list"
  valueArrays :: "jsv list list"

text \<open>
  The loop of \<open>parseHTMLAst\<close> on the cells of \<open>nodesToIterate\<close> and \<open>results\<close>. A cell
  that the store does not hold cannot be used.
\<close>

function parseHTMLAst_while :: "store \<Rightarrow> nat \<Rightarrow> nat \<Rightarrow> error + store" where
  "parseHTMLAst_while \<sigma> nodesToIterate results =
     (if nodesToIterate < length (nodeArrays \<sigma>) then
        (case nodeArrays \<sigma> ! nodesToIterate of
           [] \<Rightarrow> Inr \<sigma>
         | currentNode # rest \<Rightarrow>
             (let \<sigma>1 = \<sigma>\<lparr>nodeArrays :=
                         (nodeArrays \<sigma>)[nodesToIterate := rest @ pushedNodes currentNode]\<rparr>
              in if str_truthy (rawAttrs currentNode) \<or> str_truthy (rawText currentNode) then
                   (case getAttributeTranslation currentNode of
                      Inl e \<Rightarrow> Inl e
                    | Inr attrValue \<Rightarrow>
                        parseHTMLAst_while
                          (\<sigma>1\<lparr>keyArrays :=
                                (keyArrays \<sigma>1)[results :=
                                   keyArrays \<sigma>1 ! results @ attrValue
                                   @ getTextTranslation currentNode]\<rparr>)
                          nodesToIterate results)
                 else parseHTMLAst_while \<sigma>1 nodesToIterate results))
      else Inl TypeError)"
  by pat_completeness auto
termination
proof (relation "measure (\<lambda>(\<sigma>, q, r). size_list size (nodeArrays \<sigma> ! q))")
  show "wf (measure (\<lambda>(\<sigma>, q, r). size_list size (nodeArrays \<sigma> ! q)))" by simp
next
  fix \<sigma> :: store and nodesToIterate results :: nat and currentNode :: markup
    and rest :: "markup list" and \<sigma>1 :: store and attrValue :: "string list"
  assume "nodesToIterate < length (nodeArrays \<sigma>)"
    and "nodeArrays \<sigma> ! nodesToIterate = currentNode # rest"
    and "\<sigma>1 = \<sigma>\<lparr>nodeArrays := (nodeArrays \<sigma>)[nodesToIterate := rest @ pushedNodes currentNode]\<rparr>"
  then show "((\<sigma>1\<lparr>keyArrays := (keyArrays \<sigma>1)[results :=
                     keyArrays \<sigma>1 ! results @ attrValue @ getTextTranslation currentNode]\<rparr>,
               nodesToIterate, results), (\<sigma>, nodesToIterate, results))
             \<in> measure (\<lambda>(\<sigma>, q, r). size_list size (nodeArrays \<sigma> ! q))"
    using size_pushedNodes [of currentNode] by simp
next
  fix \<sigma> :: store and nodesToIterate results :: nat and currentNode :: markup
    and rest :: "markup list" and \<sigma>1 :: store
  assume "nodesToIterate < length (nodeArrays \<sigma>)"
    and "nodeArrays \<sigma> ! nodesToIterate = currentNode # rest"
    and "\<sigma>1 = \<sigma>\<lparr>nodeArrays := (nodeArrays \<sigma>)[nodesToIterate := rest @ pushedNodes currentNode]\<rparr>"
  then show "((\<sigma>1, nodesToIterate, results), (\<sigma>, nodesToIterate, results))
             \<in> measure (\<lambda>(\<sigma>, q, r). size_list size (nodeArrays \<sigma> ! q))"
    using size_pushedNodes [of currentNode] by simp
qed

text \<open>
  \<open>parseHTMLAst(trees)\<close> for the array in the cell \<open>trees\<close>: \<open>results\<close> is a new empty
  array and \<open>nodesToIterate\<close> a new array with the elements of \<open>trees\<close>. The call
  returns the cell of \<open>results\<close>.
\<close>

definition parseHTMLAst_run :: "store \<Rightarrow> nat \<Rightarrow> error + store \<times> nat" where
  "parseHTMLAst_run \<sigma> trees =
     (if trees < length (nodeArrays \<sigma>) then
        (let results = length (keyArrays \<sigma>);
             nodesToIterate = length (nodeArrays \<sigma>);
             \<sigma>1 = \<sigma>\<lparr>keyArrays := keyArrays \<sigma> @ [[]],
                     nodeArrays := nodeArrays \<sigma> @ [nodeArrays \<sigma> ! trees]\<rparr>
         in case parseHTMLAst_while \<sigma>1 nodesToIterate results of
              Inl e \<Rightarrow> Inl e
            | Inr \<sigma>2 \<Rightarrow> Inr (\<sigma>2, results))
      else Inl TypeError)"

text \<open>\<open>parseFiles\<close>, pushing on the cell \<open>parseResults\<close>.\<close>

function parseFiles_run :: "store \<Rightarrow> nat \<Rightarrow> jsv \<Rightarrow> error + store" where
  "parseFiles_run \<sigma> parseResults node =
     (if \<not> isNode node then Inl TypeError
      else case translationKeys node of
        Inl e \<Rightarrow> Inl e
      | Inr keys \<Rightarrow>
          fold (\<lambda>child r. case r of Inl e \<Rightarrow> Inl e | Inr \<sigma>' \<Rightarrow> parseFiles_run \<sigma>' parseResults child)
               (forEachChild node)
               (Inr (\<sigma>\<lparr>valueArrays :=
                         (valueArrays \<sigma>)[parseResults := valueArrays \<sigma> ! parseResults @ keys]\<rparr>)))"
  by pat_completeness auto
termination
  by (relation "measure (\<lambda>(\<sigma>, p, n). size n)") (simp_all add: forEachChild_size)

text \<open>
  \<open>parseTSAst\<close>, given the root node of each file: \<open>parseResults\<close> is a new empty array,
  whose cell the call returns.
\<close>

definition parseTSAst_run :: "store \<Rightarrow> jsv list \<Rightarrow> error + store \<times> nat" where
  "parseTSAst_run \<sigma> rootNodes =
     (let parseResults = length (valueArrays \<sigma>);
          \<sigma>1 = \<sigma>\<lparr>valueArrays := valueArrays \<sigma> @ [[]]\<rparr>
      in case fold (\<lambda>rootNode r. case r of
                                    Inl e \<Rightarrow> Inl e
                                  | Inr \<sigma>' \<Rightarrow> parseFiles_run \<sigma>' parseResults rootNode)
                   rootNodes (Inr \<sigma>1) of
           Inl e \<Rightarrow> Inl e
         | Inr \<sigma>2 \<Rightarrow> Inr (\<sigma>2, parseResults))"

text \<open>
  Lines 14 and 15 of the script up to the call of \<open>flat\<close>: both extractors, one after
  the other, and the candidates that the two arrays returned hold at the end.
\<close>

definition extraction_run :: "store \<Rightarrow> nat \<Rightarrow> jsv list \<Rightarrow> error + store \<times> nat \<times> nat" where
  "extraction_run \<sigma> trees rootNodes =
     (case parseHTMLAst_run \<sigma> trees of
        Inl e \<Rightarrow> Inl e
      | Inr (\<sigma>1, htmlTranslationKeys) \<Rightarrow>
          (case parseTSAst_run \<sigma>1 rootNodes of
             Inl e \<Rightarrow> Inl e
           | Inr (\<sigma>2, tsTranslationsKeys) \<Rightarrow> Inr (\<sigma>2, htmlTranslationKeys, tsTranslationsKeys)))"

fun candidates :: "error + store \<times> nat \<times> nat \<Rightarrow> error + string list \<times> jsv list" where
  "candidates (Inl e) = Inl e"
| "candidates (Inr (\<sigma>, h, t)) = Inr (keyArrays \<sigma> ! h, valueArrays \<sigma> ! t)"

section \<open>Concrete inputs\<close>

subsection \<open>Syntax trees of the TypeScript parser\<close>

text \<open>
  The nodes the parser builds for the expressions used below, with the properties the
  extractor reads. An identifier carries its name as \<open>escapedText\<close> and as \<open>text\<close>; a
  literal carries its \<open>text\<close>. Of the \<open>kind\<close> tags only 207, the call expression,
  matters.
\<close>

definition identifierNode :: "string \<Rightarrow> jsv" where
  "identifierNode n = Obj [(''kind'', Num 79), (''escapedText'', Str n), (''text'', Str n)]"

definition stringLiteral :: "string \<Rightarrow> jsv" where
  "stringLiteral s = Obj [(''kind'', Num 10), (''text'', Str s)]"

definition propertyAccessExpression :: "jsv \<Rightarrow> string \<Rightarrow> jsv" where
  "propertyAccessExpression e n =
     Obj [(''kind'', Num 205), (''expression'', e), (''name'', identifierNode n)]"

definition callExpression :: "jsv \<Rightarrow> jsv list \<Rightarrow> jsv" where
  "callExpression callee args =
     Obj [(''kind'', Num 207), (''expression'', callee), (''arguments'', Arr args [])]"

definition binaryExpression :: "jsv \<Rightarrow> nat \<Rightarrow> jsv \<Rightarrow> jsv" where
  "binaryExpression l operator r =
     Obj [(''kind'', Num 220), (''left'', l),
          (''operatorToken'', Obj [(''kind'', Num (int operator))]), (''right'', r)]"

definition conditionalExpression :: "jsv \<Rightarrow> jsv \<Rightarrow> jsv \<Rightarrow> jsv" where
  "conditionalExpression c t f =
     Obj [(''kind'', Num 221), (''condition'', c),
          (''questionToken'', Obj [(''kind'', Num 57)]), (''whenTrue'', t),
          (''colonToken'', Obj [(''kind'', Num 58)]), (''whenFalse'', f)]"

definition arrayLiteralExpression :: "jsv list \<Rightarrow> jsv" where
  "arrayLiteralExpression es = Obj [(''kind'', Num 203), (''elements'', Arr es [])]"

text \<open>
  The call \<open>i18n.instant(arg)\<close>: the callee is a property access whose \<open>name\<close> is the
  identifier \<open>instant\<close>.
\<close>

definition instantCall :: "jsv \<Rightarrow> jsv" where
  "instantCall arg =
     callExpression (propertyAccessExpression (identifierNode ''i18n'') ''instant'') [arg]"

text \<open>
  A source file whose statements are expressions: the root node that the parser returns
  for a file.
\<close>

definition expressionStatement :: "jsv \<Rightarrow> jsv" where
  "expressionStatement e = Obj [(''kind'', Num 237), (''expression'', e)]"

definition sourceFile :: "jsv list \<Rightarrow> jsv" where
  "sourceFile statements =
     Obj [(''kind'', Num 303), (''statements'', Arr statements []),
          (''endOfFileToken'', Obj [(''kind'', Num 1)])]"

subsection \<open>Markup nodes\<close>

text \<open>
  Two element nodes used as concrete inputs. The first has the raw attribute text
  \<open>class="x" translate="greeting.hello"\<close>; the second has
  \<open>translate="a.b" title="{{ 'c.d' | translate }}"\<close>, where a scan of the raw text
  would find the pipe form as well.
\<close>

definition greeting_attrs :: string where
  "greeting_attrs = ''class='' @ [dquote] @ ''x'' @ [dquote]
                    @ '' translate='' @ [dquote] @ ''greeting.hello'' @ [dquote]"

definition greeting_node :: markup where
  "greeting_node =
     MarkupNode (Some greeting_attrs) None
       (Some [(''class'', ''x''), (''translate'', ''greeting.hello'')]) []"

definition titled_attrs :: string where
  "titled_attrs = ''translate='' @ [dquote] @ ''a.b'' @ [dquote]
                  @ '' title='' @ [dquote] @ ''{{ 'c.d' | translate }}'' @ [dquote]"

definition titled_node :: markup where
  "titled_node =
     MarkupNode (Some titled_attrs) None
       (Some [(''translate'', ''a.b''), (''title'', ''{{ 'c.d' | translate }}'')]) []"

definition untranslated_node :: markup where
  "untranslated_node =
     MarkupNode (Some titled_attrs) None
       (Some [(''title'', ''{{ 'c.d' | translate }}'')]) []"

subsection \<open>A runtime and a catalog\<close>

text \<open>
  A heap as the program finds it at its start, cut down to the built-in objects that
  matter here, by address: 0 \<open>Object.prototype\<close>, 1 \<open>Function.prototype\<close>,
  2 \<open>Array.prototype\<close>, 3 \<open>String.prototype\<close>, 4 \<open>Number.prototype\<close>,
  5 \<open>Boolean.prototype\<close>, 6 to 11 the constructors \<open>Object\<close>, \<open>Function\<close>, \<open>Array\<close>,
  \<open>String\<close>, \<open>Number\<close> and \<open>Boolean\<close>, 12 to 16 the methods \<open>hasOwnProperty\<close>,
  \<open>toString\<close>, \<open>valueOf\<close>, \<open>push\<close> and \<open>split\<close>.
\<close>

definition builtinFunction :: "string \<Rightarrow> int \<Rightarrow> jsobject" where
  "builtinFunction nm n =
     \<lparr>proto = VRef 1, callable = True, elems = None,
      props = [(''length'', Fixed (VNum n)), (''name'', Fixed (VStr nm))]\<rparr>"

definition builtinConstructor :: "string \<Rightarrow> int \<Rightarrow> nat \<Rightarrow> jsobject" where
  "builtinConstructor nm n p =
     \<lparr>proto = VRef 1, callable = True, elems = None,
      props = [(''length'', Fixed (VNum n)), (''name'', Fixed (VStr nm)),
               (''prototype'', Fixed (VRef p))]\<rparr>"

definition sampleHeap :: heap where
  "sampleHeap =
     [\<lparr>proto = VNull, callable = False, elems = None,
       props = [(''constructor'', Data (VRef 6)), (''__proto__'', ProtoAccessor),
                (''hasOwnProperty'', Data (VRef 12)), (''toString'', Data (VRef 13)),
                (''valueOf'', Data (VRef 14))]\<rparr>,
      \<lparr>proto = VRef 0, callable = True, elems = None,
       props = [(''length'', Fixed (VNum 0)), (''name'', Fixed (VStr [])),
                (''arguments'', Restricted), (''caller'', Restricted),
                (''constructor'', Data (VRef 7)), (''toString'', Data (VRef 13))]\<rparr>,
      \<lparr>proto = VRef 0, callable = False, elems = Some [],
       props = [(''constructor'', Data (VRef 8)), (''push'', Data (VRef 15)),
                (''toString'', Data (VRef 13))]\<rparr>,
      \<lparr>proto = VRef 0, callable = False, elems = None,
       props = [(''length'', Fixed (VNum 0)), (''constructor'', Data (VRef 9)),
                (''split'', Data (VRef 16)), (''toString'', Data (VRef 13)),
                (''valueOf'', Data (VRef 14))]\<rparr>,
      \<lparr>proto = VRef 0, callable = False, elems = None,
       props = [(''constructor'', Data (VRef 10)), (''toString'', Data (VRef 13)),
                (''valueOf'', Data (VRef 14))]\<rparr>,
      \<lparr>proto = VRef 0, callable = False, elems = None,
       props = [(''constructor'', Data (VRef 11)), (''toString'', Data (VRef 13)),
                (''valueOf'', Data (VRef 14))]\<rparr>,
      builtinConstructor ''Object'' 1 0,
      builtinConstructor ''Function'' 1 1,
      builtinConstructor ''Array'' 1 2,
      builtinConstructor ''String'' 1 3,
      builtinConstructor ''Number'' 1 4,
      builtinConstructor ''Boolean'' 1 5,
      builtinFunction ''hasOwnProperty'' 1,
      builtinFunction ''toString'' 0,
      builtinFunction ''valueOf'' 0,
      builtinFunction ''push'' 1,
      builtinFunction ''split'' 2]"

text \<open>
  The conversion of a value to an array length in this runtime. A string is a length
  when, trimmed, it is empty or a decimal numeral below \<open>2\<^sup>3\<^sup>2\<close>; the other spellings
  of a number (sign, fraction, exponent, hexadecimal) and the conversion of an object
  through its methods are left out and taken as no length.
\<close>

fun sampleArrayLength :: "heap \<Rightarrow> val \<Rightarrow> nat option" where
  "sampleArrayLength h (VNum n) = (if 0 \<le> n \<and> n < 4294967296 then Some (nat n) else None)"
| "sampleArrayLength h (VStr s) =
     (if trim s = [] then Some 0
      else if list_all is_digit (trim s) \<and> uint_value (trim s) < 4294967296
      then Some (nat (uint_value (trim s)))
      else None)"
| "sampleArrayLength h (VBool b) = Some (if b then 1 else 0)"
| "sampleArrayLength h VNull = Some 0"
| "sampleArrayLength h v = None"

definition sampleRuntime :: runtime where
  "sampleRuntime =
     \<lparr>objectProto = VRef 0, arrayProto = VRef 2, stringProto = VRef 3,
      numberProto = VRef 4, booleanProto = VRef 5, arrayLength = sampleArrayLength\<rparr>"

text \<open>The catalog \<open>{"a": {"b": "Hello"}}\<close>.\<close>

definition hello_catalog :: json where
  "hello_catalog = JObj [(''a'', JObj [(''b'', JStr ''Hello'')])]"

text \<open>
  The heap of \<open>createJSONTranslations\<close> in this runtime when this catalog is loaded and
  no key is filed yet: 17 is \<open>unresolvedTranslations\<close>, 18 \<open>translationsObject\<close>, 19
  and 20 are the objects of the document, 21 is the accumulator of the \<open>reduce\<close>,
  which becomes \<open>resolvedTranslations\<close>.
\<close>

definition hello_heap :: heap where
  "hello_heap =
     sampleHeap
     @ [emptyObject (VRef 0),
        \<lparr>proto = VRef 0, callable = False, elems = None, props = [(''a'', Data (VRef 20))]\<rparr>,
        \<lparr>proto = VRef 0, callable = False, elems = None, props = [(''a'', Data (VRef 20))]\<rparr>,
        \<lparr>proto = VRef 0, callable = False, elems = None,
         props = [(''b'', Data (VStr ''Hello''))]\<rparr>,
        emptyObject (VRef 0)]"

section \<open>Properties of the markup extractor\<close>

subsection \<open>The quote search\<close>

lemma last_idx_range: "- 1 \<le> last_idx xs c \<and> last_idx xs c < int (length xs)"
  by (induction xs) (auto simp: Let_def)

lemma last_idx_notin: "c \<notin> set xs \<Longrightarrow> last_idx xs c = - 1"
  by (induction xs) (auto simp: Let_def)

lemma last_idx_append_notin: "c \<notin> set ys \<Longrightarrow> last_idx (xs @ ys) c = last_idx xs c"
  by (induction xs) (auto simp: Let_def last_idx_notin)

lemma last_idx_snoc: "last_idx (xs @ [c]) c = int (length xs)"
  by (induction xs) (auto simp: Let_def)

lemma last_idx_mid: "c \<notin> set ys \<Longrightarrow> last_idx (xs @ c # ys) c = int (length xs)"
proof -
  assume "c \<notin> set ys"
  then have "last_idx ((xs @ [c]) @ ys) c = last_idx (xs @ [c]) c"
    by (rule last_idx_append_notin)
  then show ?thesis by (simp add: last_idx_snoc)
qed

lemma last_idx_mid_other:
  "c \<notin> set ys \<Longrightarrow> c \<noteq> q \<Longrightarrow> last_idx (xs @ q # ys) c = last_idx xs c"
proof -
  assume a: "c \<notin> set ys" "c \<noteq> q"
  then have "c \<notin> set (q # ys)" by simp
  then show ?thesis by (rule last_idx_append_notin)
qed

lemma max_last_idx_quote:
  assumes "is_quote q" and "squote \<notin> set ys" and "dquote \<notin> set ys"
  shows "max (last_idx (xs @ q # ys) squote) (last_idx (xs @ q # ys) dquote) = int (length xs)"
proof (cases "q = squote")
  case True
  have "last_idx (xs @ q # ys) squote = int (length xs)"
    using True assms(2) last_idx_mid [of squote ys xs] by simp
  moreover have "last_idx (xs @ q # ys) dquote = last_idx xs dquote"
    using True assms(3) last_idx_mid_other [of dquote ys q xs]
    by (simp add: squote_def dquote_def)
  moreover have "last_idx xs dquote < int (length xs)"
    using last_idx_range [of xs dquote] by simp
  ultimately show ?thesis by simp
next
  case False
  then have d: "q = dquote" using assms(1) by (simp add: is_quote_def)
  have "last_idx (xs @ q # ys) dquote = int (length xs)"
    using d assms(3) last_idx_mid [of dquote ys xs] by simp
  moreover have "last_idx (xs @ q # ys) squote = last_idx xs squote"
    using d assms(2) last_idx_mid_other [of squote ys q xs]
    by (simp add: squote_def dquote_def)
  moreover have "last_idx xs squote < int (length xs)"
    using last_idx_range [of xs squote] by simp
  ultimately show ?thesis by simp
qed

lemma translationKeyOf_quoted:
  assumes attrs: "attrs = pre @ q1 # mid @ q2 # post"
    and q: "is_quote q1" "is_quote q2"
    and mid: "\<forall>c \<in> set mid. \<not> is_quote c"
    and post: "\<forall>c \<in> set post. \<not> is_quote c"
  shows "translationKeyOf attrs =
           (if trim mid \<noteq> [] then trim mid
            else UNABLE_TO_RESOLVE_VALUE @ '': '' @ prettifyKey attrs)"
proof -
  let ?e = "int (length pre) + 1 + int (length mid)"
  have nq: "squote \<notin> set mid" "dquote \<notin> set mid" "squote \<notin> set post" "dquote \<notin> set post"
    using mid post by (auto simp: is_quote_def)
  have a2: "attrs = (pre @ q1 # mid) @ q2 # post" using attrs by simp
  have e: "max (lastIndexOf attrs squote) (lastIndexOf attrs dquote) = ?e"
    unfolding lastIndexOf_def a2
    using max_last_idx_quote [OF q(2) nq(3) nq(4), of "pre @ q1 # mid"] by simp
  have "nat (max (?e - 1) 0) + 1 = length (pre @ q1 # mid)" by simp
  then have tk: "take (nat (max (?e - 1) 0) + 1) attrs = pre @ q1 # mid"
    unfolding a2 by (simp only: take_append) simp
  have s: "max (lastIndexOf_from attrs squote (?e - 1)) (lastIndexOf_from attrs dquote (?e - 1))
             = int (length pre)"
    unfolding lastIndexOf_from_def tk
    using max_last_idx_quote [OF q(1) nq(1) nq(2), of pre] by simp
  have n: "nat (int (length pre) + 1) = Suc (length pre)" by simp
  have sub: "substring attrs (int (length pre) + 1) ?e = mid"
    unfolding attrs by (simp add: substring_def Let_def min_def max_def n)
  show ?thesis
    unfolding translationKeyOf_def by (simp only: e s sub Let_def)
qed

lemma translationKeyOf_no_quote:
  assumes "\<forall>c \<in> set attrs. \<not> is_quote c"
  shows "translationKeyOf attrs = UNABLE_TO_RESOLVE_VALUE @ '': '' @ prettifyKey attrs"
proof -
  have nq: "squote \<notin> set attrs" "dquote \<notin> set attrs"
    using assms by (auto simp: is_quote_def)
  have e: "max (lastIndexOf attrs squote) (lastIndexOf attrs dquote) = - 1"
    using nq by (simp add: lastIndexOf_def last_idx_notin)
  have "squote \<notin> set (take n attrs)" "dquote \<notin> set (take n attrs)" for n
    using nq by (auto dest: in_set_takeD)
  then have s: "max (lastIndexOf_from attrs squote p) (lastIndexOf_from attrs dquote p) = - 1" for p
    by (simp add: lastIndexOf_from_def last_idx_notin)
  have sub: "substring attrs 0 (- 1) = []"
    by (simp add: substring_def Let_def)
  show ?thesis
    unfolding translationKeyOf_def by (simp add: e s sub Let_def trim_def)
qed

lemma loop_results_append:
  "extractTranslationsFromString_loop s (r1 @ r) = r1 @ extractTranslationsFromString_loop s r"
proof (induction s r arbitrary: r1 rule: extractTranslationsFromString_loop.induct)
  case (1 currentString results)
  show ?case
  proof (cases "indexOf currentString translateKeyword = - 1")
    case True
    then show ?thesis by simp
  next
    case False
    let ?next = "substring_from currentString
                   (indexOf currentString translateKeyword + int (length translateKeyword))"
    let ?k = "translationKeyOf (trim (substring currentString 0 (indexOf currentString translateKeyword)))"
    have step: "extractTranslationsFromString_loop currentString acc
            = extractTranslationsFromString_loop ?next (acc @ [?k])" for acc
      using False by (subst extractTranslationsFromString_loop.simps) (simp add: Let_def)
    have "extractTranslationsFromString_loop currentString (r1 @ results)
            = extractTranslationsFromString_loop ?next (r1 @ results @ [?k])"
      using step [of "r1 @ results"] by simp
    also have "\<dots> = r1 @ extractTranslationsFromString_loop ?next (results @ [?k])"
      using "1.IH" [OF refl False] .
    also have "\<dots> = r1 @ extractTranslationsFromString_loop currentString results"
      using step [of results] by simp
    finally show ?thesis .
  qed
qed

lemma extract_step:
  assumes "v = a @ translateKeyword @ rest"
    and "indexOf v translateKeyword = int (length a)"
  shows "extractTranslationsFromString v
           = translationKeyOf (trim a) # extractTranslationsFromString rest"
proof -
  have ne: "indexOf v translateKeyword \<noteq> - 1" using assms(2) by simp
  have sub: "substring v 0 (int (length a)) = a"
    using assms(1) by (simp add: substring_def Let_def)
  have rest: "substring_from v (int (length a) + int (length translateKeyword)) = rest"
    using assms(1) by (simp add: substring_from_def nat_add_distrib)
  have "extractTranslationsFromString v
          = extractTranslationsFromString_loop rest ([translationKeyOf (trim a)] @ [])"
    unfolding extractTranslationsFromString_def
    using ne by (subst extractTranslationsFromString_loop.simps) (simp add: Let_def assms(2) sub rest)
  then show ?thesis
    unfolding extractTranslationsFromString_def
    by (simp only: loop_results_append) simp
qed

lemma trim_all_ws: "\<forall>c \<in> set s. is_ws c \<Longrightarrow> trim s = []"
proof -
  assume "\<forall>c \<in> set s. is_ws c"
  then have d: "dropWhile is_ws s = []" by simp
  show ?thesis unfolding trim_def d by simp
qed

lemma quote_not_ws: "is_quote c \<Longrightarrow> \<not> is_ws c"
  by (auto simp: is_quote_def is_ws_def squote_def dquote_def)

text \<open>
  Claim C5, as amended. For an occurrence of the marker \<open>| translate\<close> (here the first
  one of \<open>v\<close>; scanning goes on in the text \<open>rest\<close> after it), let \<open>trim a\<close> be the
  trimmed text before the marker. When it holds at least two quote characters, the
  emitted candidate is the trimmed text strictly between the rightmost quote character
  (single or double) and the nearest quote character of either kind before it; when that
  text is empty or white space, the candidate is the unresolved marker.
\<close>

theorem pipe_key_between_last_two_quotes:
  assumes "v = a @ translateKeyword @ rest"
    and "indexOf v translateKeyword = int (length a)"
    and "trim a = pre @ q1 # mid @ q2 # post"
    and "is_quote q1" and "is_quote q2"
    and "\<forall>c \<in> set mid. \<not> is_quote c"
    and "\<forall>c \<in> set post. \<not> is_quote c"
  shows "extractTranslationsFromString v =
           (if trim mid \<noteq> [] then trim mid
            else UNABLE_TO_RESOLVE_VALUE @ '': '' @ prettifyKey (trim a))
           # extractTranslationsFromString rest"
  using extract_step [OF assms(1,2)] translationKeyOf_quoted [OF assms(3-7)] by simp

theorem pipe_key_between_last_two_quotes_witness:
  "''x='a' {{ 'nav.home' | translate }}'' = ''x='a' {{ 'nav.home' '' @ translateKeyword @ '' }}''
   \<and> indexOf ''x='a' {{ 'nav.home' | translate }}'' translateKeyword = int (length ''x='a' {{ 'nav.home' '')
   \<and> trim ''x='a' {{ 'nav.home' '' = ''x='a' {{ '' @ squote # ''nav.home'' @ squote # []
   \<and> is_quote squote
   \<and> filter is_quote ''nav.home'' = []
   \<and> extractTranslationsFromString ''x='a' {{ 'nav.home' | translate }}'' = [''nav.home'']"
proof -
  have h1: "''x='a' {{ 'nav.home' | translate }}'' = ''x='a' {{ 'nav.home' '' @ translateKeyword @ '' }}''"
    by (simp add: translateKeyword_def)
  have h2: "indexOf ''x='a' {{ 'nav.home' | translate }}'' translateKeyword = int (length ''x='a' {{ 'nav.home' '')"
    by code_simp
  have h3: "trim ''x='a' {{ 'nav.home' '' = ''x='a' {{ '' @ squote # ''nav.home'' @ squote # []"
    by code_simp
  have h4: "is_quote squote" by (simp add: is_quote_def)
  have h5: "\<forall>c \<in> set ''nav.home''. \<not> is_quote c"
    by (simp add: is_quote_def squote_def dquote_def)
  have h6: "\<forall>c \<in> set ([] :: string). \<not> is_quote c" by simp
  have t: "trim ''nav.home'' = ''nav.home''" by code_simp
  have r: "extractTranslationsFromString '' }}'' = []" by code_simp
  from pipe_key_between_last_two_quotes [OF h1 h2 h3 h4 h4 h5 h6]
  have "extractTranslationsFromString ''x='a' {{ 'nav.home' | translate }}'' = [''nav.home'']"
    by (simp only: t r) simp
  moreover have "filter is_quote ''nav.home'' = []"
    by (simp add: is_quote_def squote_def dquote_def)
  ultimately show ?thesis using h1 h2 h3 h4 by blast
qed

text \<open>
  Claim C5 as stated fails where the two quote characters differ in kind: in
  \<open>{{ "it's" | translate }}\<close> the rightmost quote is a double quote and the matching
  double quote before it encloses \<open>it's\<close>, but the search stops at the apostrophe and
  the candidate is \<open>s\<close>.
\<close>

theorem pipe_key_same_kind_counterexample:
  "extractTranslationsFromString (''{{ '' @ [dquote] @ ''it's'' @ [dquote] @ '' | translate }}'') = [''s'']
   \<and> extractTranslationsFromString (''{{ '' @ [dquote] @ ''it's'' @ [dquote] @ '' | translate }}'') \<noteq> [''it's'']"
  by code_simp

text \<open>
  Claim C7, as amended. The text \<open>{{ 'nav.home' | translate }}\<close> yields the single
  candidate \<open>nav.home\<close>, and \<open>{{ | translate }}\<close> yields the marker
  \<open>UNABLE_TO_RESOLVE_VALUE: {{\<close>. In general the marker, which embeds the
  white-space-stripped text before \<open>| translate\<close>, is emitted when that text holds no quote
  character at all, or when its last two quote characters enclose only white space.
\<close>

theorem pipe_form_marker:
  assumes "v = a @ translateKeyword @ rest"
    and "indexOf v translateKeyword = int (length a)"
    and "(\<forall>c \<in> set (trim a). \<not> is_quote c) \<or>
         (\<exists>pre q1 mid q2 post. trim a = pre @ q1 # mid @ q2 # post \<and> is_quote q1 \<and> is_quote q2
            \<and> (\<forall>c \<in> set mid. is_ws c) \<and> (\<forall>c \<in> set post. \<not> is_quote c))"
  shows "extractTranslationsFromString ''{{ 'nav.home' | translate }}'' = [''nav.home'']
         \<and> extractTranslationsFromString ''{{ | translate }}'' = [''UNABLE_TO_RESOLVE_VALUE: {{'']
         \<and> extractTranslationsFromString v =
             (UNABLE_TO_RESOLVE_VALUE @ '': '' @ prettifyKey (trim a))
             # extractTranslationsFromString rest"
proof -
  have e1: "extractTranslationsFromString ''{{ 'nav.home' | translate }}'' = [''nav.home'']"
    by code_simp
  have e2: "extractTranslationsFromString ''{{ | translate }}'' = [''UNABLE_TO_RESOLVE_VALUE: {{'']"
    by code_simp
  have "translationKeyOf (trim a) = UNABLE_TO_RESOLVE_VALUE @ '': '' @ prettifyKey (trim a)"
    using assms(3)
  proof
    assume "\<forall>c \<in> set (trim a). \<not> is_quote c"
    then show ?thesis by (rule translationKeyOf_no_quote)
  next
    assume "\<exists>pre q1 mid q2 post. trim a = pre @ q1 # mid @ q2 # post \<and> is_quote q1 \<and> is_quote q2
              \<and> (\<forall>c \<in> set mid. is_ws c) \<and> (\<forall>c \<in> set post. \<not> is_quote c)"
    then obtain pre q1 mid q2 post where
      d: "trim a = pre @ q1 # mid @ q2 # post" and q: "is_quote q1" "is_quote q2"
      and m: "\<forall>c \<in> set mid. is_ws c" and p: "\<forall>c \<in> set post. \<not> is_quote c"
      by blast
    from m have m': "\<forall>c \<in> set mid. \<not> is_quote c"
      using quote_not_ws by blast
    from m have "trim mid = []" by (rule trim_all_ws)
    with translationKeyOf_quoted [OF d q m' p] show ?thesis by simp
  qed
  with extract_step [OF assms(1,2)] e1 e2 show ?thesis by simp
qed

theorem pipe_form_marker_witness:
  "''{{ | translate }}'' = ''{{ '' @ translateKeyword @ '' }}''
   \<and> indexOf ''{{ | translate }}'' translateKeyword = int (length ''{{ '')
   \<and> filter is_quote (trim ''{{ '') = []
   \<and> extractTranslationsFromString ''{{ | translate }}''
       = (UNABLE_TO_RESOLVE_VALUE @ '': '' @ prettifyKey (trim ''{{ '')) # extractTranslationsFromString '' }}''"
proof -
  have h1: "''{{ | translate }}'' = ''{{ '' @ translateKeyword @ '' }}''"
    by (simp add: translateKeyword_def)
  have h2: "indexOf ''{{ | translate }}'' translateKeyword = int (length ''{{ '')"
    by code_simp
  have t: "trim ''{{ '' = ''{{''" by code_simp
  have h3: "\<forall>c \<in> set (trim ''{{ ''). \<not> is_quote c"
    unfolding t by (simp add: is_quote_def squote_def dquote_def)
  have h4: "filter is_quote (trim ''{{ '') = []"
    unfolding t by (simp add: is_quote_def squote_def dquote_def)
  from pipe_form_marker [OF h1 h2 disjI1, OF h3] h1 h2 h4 show ?thesis by blast
qed

text \<open>
  Claim C7 as stated fails when the text before the marker holds a single quote
  character: there is no quoted segment, yet no marker is emitted; the candidate is the
  text before that quote.
\<close>

theorem pipe_form_single_quote_counterexample:
  "extractTranslationsFromString ''{{ x' | translate }}'' = [''{{ x'']
   \<and> extractTranslationsFromString ''{{ x' | translate }}''
       \<noteq> [UNABLE_TO_RESOLVE_VALUE @ '': '' @ prettifyKey (''{{ x'' @ [squote])]"
  by code_simp

subsection \<open>The translate attribute\<close>

lemma getAttribute_has: "getAttribute node k = Some v \<Longrightarrow> hasGetAttribute node"
proof (cases node)
  case (MarkupNode a t g cs)
  assume "getAttribute node k = Some v"
  with MarkupNode show ?thesis by (cases g) simp_all
next
  case (MarkupArray ns)
  assume "getAttribute node k = Some v"
  with MarkupArray show ?thesis by simp
qed

text \<open>
  Claim C8. A node whose \<open>translate\<close> attribute is present with a non-empty value \<open>v\<close>
  yields exactly one candidate from its attributes, the trimmed value; a visited node
  with raw attribute text adds this candidate, and what its inner text yields, to the
  results. The attribute text \<open>class="x" translate="greeting.hello"\<close> yields exactly
  \<open>greeting.hello\<close>.
\<close>

theorem direct_attribute_key:
  assumes "getAttribute node ''translate'' = Some v" and "v \<noteq> []"
  shows "getAttributeTranslation node = Inr [trim v]
         \<and> (str_truthy (rawAttrs node) \<longrightarrow>
              parseHTMLAst_loop (node # rest) results =
                parseHTMLAst_loop (rest @ pushedNodes node)
                  (results @ [trim v] @ getTextTranslation node))
         \<and> parseHTMLAst [greeting_node] = Inr [''greeting.hello'']"
proof -
  have a: "getAttributeTranslation node = Inr [trim v]"
    using assms getAttribute_has [OF assms(1)] by (simp add: getAttributeTranslation_def)
  have e: "parseHTMLAst [greeting_node] = Inr [''greeting.hello'']"
    by code_simp
  from a e show ?thesis by (simp add: Let_def)
qed

theorem direct_attribute_key_witness:
  "getAttribute greeting_node ''translate'' = Some ''greeting.hello''
   \<and> ''greeting.hello'' \<noteq> []
   \<and> str_truthy (rawAttrs greeting_node)
   \<and> getAttributeTranslation greeting_node = Inr [''greeting.hello'']
   \<and> parseHTMLAst_loop [greeting_node] [] = Inr [''greeting.hello'']"
proof -
  have h1: "getAttribute greeting_node ''translate'' = Some ''greeting.hello''"
    by (simp add: greeting_node_def)
  have h2: "''greeting.hello'' \<noteq> []" by simp
  have h3: "str_truthy (rawAttrs greeting_node)"
    by (simp add: greeting_node_def greeting_attrs_def)
  have t: "trim ''greeting.hello'' = ''greeting.hello''" by code_simp
  have p: "pushedNodes greeting_node = []" by code_simp
  have x: "getTextTranslation greeting_node = []" by code_simp
  from direct_attribute_key [OF h1 h2, of "[]" "[]"] h3
  have "getAttributeTranslation greeting_node = Inr [''greeting.hello'']"
    and "parseHTMLAst_loop [greeting_node] [] = Inr [''greeting.hello'']"
    by (simp_all add: t p x)
  with h1 h2 h3 show ?thesis by blast
qed

text \<open>
  Claim C10. For a node with a non-empty \<open>translate\<close> attribute, attribute extraction
  returns the trimmed value alone, whatever the raw attribute text holds: occurrences of
  \<open>| translate\<close> there add nothing. The raw attribute text is scanned for the pipe form
  only when the attribute is absent or empty (a node without \<open>getAttribute\<close> yields
  nothing at all).
\<close>

theorem translate_attribute_skips_pipe_scan:
  "(getAttribute node ''translate'' = Some v \<and> v \<noteq> [] \<longrightarrow>
      getAttributeTranslation node = Inr [trim v])
   \<and> (hasGetAttribute node \<and>
        (getAttribute node ''translate'' = None \<or> getAttribute node ''translate'' = Some []) \<longrightarrow>
      getAttributeTranslation node =
        (case rawAttrs node of
           None \<Rightarrow> Inl TypeError
         | Some raw \<Rightarrow> Inr (extractTranslationsFromString raw)))
   \<and> (\<not> hasGetAttribute node \<longrightarrow> getAttributeTranslation node = Inr [])"
  using getAttribute_has [of node "''translate''" v]
  by (auto simp: getAttributeTranslation_def)

theorem translate_attribute_skips_pipe_scan_witness:
  "getAttribute titled_node ''translate'' = Some ''a.b''
   \<and> extractTranslationsFromString titled_attrs = [''c.d'']
   \<and> getAttributeTranslation titled_node = Inr [''a.b'']
   \<and> hasGetAttribute untranslated_node
   \<and> getAttribute untranslated_node ''translate'' = None
   \<and> getAttributeTranslation untranslated_node = Inr [''c.d'']
   \<and> \<not> hasGetAttribute (MarkupNode None (Some ''{{ 'c.d' | translate }}'') None [])
   \<and> getAttributeTranslation (MarkupNode None (Some ''{{ 'c.d' | translate }}'') None []) = Inr []"
proof -
  have h1: "getAttribute titled_node ''translate'' = Some ''a.b''"
    by (simp add: titled_node_def)
  have s: "extractTranslationsFromString titled_attrs = [''c.d'']" by code_simp
  have t: "trim ''a.b'' = ''a.b''" by code_simp
  have h2: "hasGetAttribute untranslated_node" by (simp add: untranslated_node_def)
  have h3: "getAttribute untranslated_node ''translate'' = None"
    by (simp add: untranslated_node_def)
  have r: "rawAttrs untranslated_node = Some titled_attrs"
    by (simp add: untranslated_node_def)
  have h4: "\<not> hasGetAttribute (MarkupNode None (Some ''{{ 'c.d' | translate }}'') None [])"
    by simp
  from translate_attribute_skips_pipe_scan [of titled_node "''a.b''"] h1
  have c1: "getAttributeTranslation titled_node = Inr [''a.b'']"
    by (simp add: t)
  from translate_attribute_skips_pipe_scan [of untranslated_node] h2 h3
  have c2: "getAttributeTranslation untranslated_node = Inr [''c.d'']"
    by (simp add: r s)
  from translate_attribute_skips_pipe_scan
         [of "MarkupNode None (Some ''{{ 'c.d' | translate }}'') None []"] h4
  have c3: "getAttributeTranslation (MarkupNode None (Some ''{{ 'c.d' | translate }}'') None []) = Inr []"
    by blast
  from h1 s c1 h2 h3 c2 h4 c3 show ?thesis by blast
qed

section \<open>Properties of the program extractor\<close>

declare parseFiles.simps [simp del]

lemma parseFiles_leaf:
  "isNode n \<Longrightarrow> translationKeys n = Inr [] \<Longrightarrow> forEachChild n = [] \<Longrightarrow> parseFiles n acc = Inr acc"
  by (subst parseFiles.simps) simp

lemma parseFiles_identifierNode: "parseFiles (identifierNode n) acc = Inr acc"
  by (rule parseFiles_leaf) (simp_all add: identifierNode_def translationKeys_def)

lemma parseFiles_stringLiteral: "parseFiles (stringLiteral s) acc = Inr acc"
  by (rule parseFiles_leaf) (simp_all add: stringLiteral_def translationKeys_def)

lemma childrenOfProperty_identifierNode:
  "childrenOfProperty (identifierNode n) = [identifierNode n]"
  by (simp add: identifierNode_def)

lemma truthy_identifierNode: "truthy (identifierNode n)"
  by (simp add: identifierNode_def)

lemma parseFiles_callee:
  "parseFiles (propertyAccessExpression (identifierNode a) n) acc = Inr acc"
  by (subst parseFiles.simps)
     (simp add: propertyAccessExpression_def translationKeys_def parseFiles_identifierNode
        childrenOfProperty_identifierNode truthy_identifierNode)

lemma translationKeys_instantCall:
  "translationKeys (instantCall arg) = map_err inferKey (argumentNodes arg)"
  by (simp add: instantCall_def callExpression_def translationKeys_def
        propertyAccessExpression_def identifierNode_def)

lemma parseFiles_instantCall:
  assumes "isNode arg"
  shows "parseFiles (instantCall arg) acc =
           (case inferKey arg of Inl e \<Rightarrow> Inl e | Inr k \<Rightarrow> parseFiles arg (acc @ [k]))"
proof -
  obtain ps where arg: "arg = Obj ps" using assms by (cases arg) simp_all
  have c: "forEachChild (instantCall arg)
             = [propertyAccessExpression (identifierNode ''i18n'') ''instant'', arg]"
    by (simp add: instantCall_def callExpression_def propertyAccessExpression_def arg)
  have n: "isNode (instantCall arg)" by (simp add: instantCall_def callExpression_def)
  have k: "translationKeys (instantCall arg) = map_err inferKey [arg]"
    by (simp add: translationKeys_instantCall arg)
  show ?thesis
    by (subst parseFiles.simps) (simp add: n k c parseFiles_callee split: sum.splits)
qed

lemma inferKey_stringLiteral: "s \<noteq> [] \<Longrightarrow> inferKey (stringLiteral s) = Inr (Str s)"
  by (simp add: inferKey_def validFields_def stringLiteral_def lodash_get_def)

lemma inferKey_conditional:
  "inferKey (conditionalExpression c (stringLiteral t) (stringLiteral f)) =
     (if truthy (baseGet c [''expression'', ''name'', ''escapedText''])
        then Inr (baseGet c [''expression'', ''name'', ''escapedText''])
      else if truthy (baseGet c [''expression'', ''escapedText''])
        then Inr (baseGet c [''expression'', ''escapedText''])
      else if truthy (baseGet c [''escapedText''])
        then Inr (baseGet c [''escapedText''])
      else if t \<noteq> [] then Inr (Str t)
      else if f \<noteq> [] then Inr (Str f)
      else Inl TypeError)"
  by (simp add: inferKey_def validFields_def conditionalExpression_def stringLiteral_def
        lodash_get_def lodash_get_undefined_def)

lemma parseTSAst_single: "parseTSAst [rootNode] = parseFiles rootNode []"
  by (simp add: parseTSAst_def)

lemma isNode_stringLiteral: "isNode (stringLiteral s)"
  by (simp add: stringLiteral_def)

text \<open>
  An argument node on which no field of \<open>validFields\<close> resolves, which has no property
  named \<open>undefined\<close> and no \<open>elements\<close>, makes the callback throw: \<open>name\<close> is
  \<open>undefined\<close> when \<open>prettifyKey(name)\<close> is called.
\<close>

lemma inferKey_throws:
  assumes "find (\<lambda>validField. truthy (lodash_get node validField)) validFields = None"
    and "lodash_get_undefined node = Undefined"
    and "\<not> truthy (js_prop node ''elements'')"
  shows "inferKey node = Inl TypeError"
  using assms by (simp add: inferKey_def)

text \<open>
  Claim C1, as amended. On a conditional expression with string-literal branches the
  probes resolve in the order of \<open>validFields\<close>: the three shapes of the condition
  first, then the true branch, then the false branch. So the true-branch literal is
  yielded when no condition shape resolves, as in
  \<open>i18n.instant(a > b ? 'a.b' : 'c.d')\<close>, and it takes priority over the false branch
  only.
\<close>

theorem ternary_probe_order:
  "inferKey (conditionalExpression c (stringLiteral t) (stringLiteral f)) =
     (if truthy (baseGet c [''expression'', ''name'', ''escapedText''])
        then Inr (baseGet c [''expression'', ''name'', ''escapedText''])
      else if truthy (baseGet c [''expression'', ''escapedText''])
        then Inr (baseGet c [''expression'', ''escapedText''])
      else if truthy (baseGet c [''escapedText''])
        then Inr (baseGet c [''escapedText''])
      else if t \<noteq> [] then Inr (Str t)
      else if f \<noteq> [] then Inr (Str f)
      else Inl TypeError)
   \<and> parseTSAst [instantCall (conditionalExpression
                    (binaryExpression (identifierNode ''a'') 31 (identifierNode ''b''))
                    (stringLiteral ''a.b'') (stringLiteral ''c.d''))] = Inr [Str ''a.b'']"
proof -
  have "parseTSAst [instantCall (conditionalExpression
                    (binaryExpression (identifierNode ''a'') 31 (identifierNode ''b''))
                    (stringLiteral ''a.b'') (stringLiteral ''c.d''))] = Inr [Str ''a.b'']"
    by code_simp
  with inferKey_conditional [of c t f] show ?thesis by simp
qed

text \<open>
  Claim C1 as stated fails: in \<open>i18n.instant(cond ? 'a.b' : 'c.d')\<close> the condition is an
  identifier, the shape \<open>condition.escapedText\<close> resolves before \<open>whenTrue.text\<close> is
  tried, and the extractor yields \<open>cond\<close>.
\<close>

theorem ternary_true_branch_counterexample:
  "parseTSAst [instantCall (conditionalExpression (identifierNode ''cond'')
                  (stringLiteral ''a.b'') (stringLiteral ''c.d''))] = Inr [Str ''cond'']
   \<and> parseTSAst [instantCall (conditionalExpression (identifierNode ''cond'')
                  (stringLiteral ''a.b'') (stringLiteral ''c.d''))] \<noteq> Inr [Str ''a.b'']"
  by code_simp

text \<open>
  Claim C3 does not hold of the code. For the call \<open>i18n.instant(a + b)\<close> no shape
  resolves and the argument has no \<open>elements\<close>; instead of the unresolved marker the
  extractor throws a TypeError, which ends the traversal.
\<close>

theorem unresolved_argument_throws:
  "inferKey (binaryExpression (identifierNode ''a'') 39 (identifierNode ''b'')) = Inl TypeError
   \<and> parseTSAst [instantCall (binaryExpression (identifierNode ''a'') 39 (identifierNode ''b''))]
       = Inl TypeError"
  by code_simp

subsection \<open>The traversal\<close>

declare nodesOf.simps [simp del]

lemma map_err_append:
  "map_err f (xs @ ys) =
     (case map_err f xs of
        Inl e \<Rightarrow> Inl e
      | Inr a \<Rightarrow> (case map_err f ys of Inl e \<Rightarrow> Inl e | Inr b \<Rightarrow> Inr (a @ b)))"
  by (induction xs) (auto split: sum.splits)

lemma isNode_forEachChild: "c \<in> set (forEachChild n) \<Longrightarrow> isNode c"
proof (cases n)
  case (Obj ps)
  assume "c \<in> set (forEachChild n)"
  with Obj obtain p where "c \<in> set (childrenOfProperty (snd p))" by auto
  then show ?thesis by (cases "snd p") auto
qed simp_all

lemma fold_Inl:
  "fold (\<lambda>child r. case r of Inl e \<Rightarrow> Inl e | Inr acc \<Rightarrow> g child acc) cs (Inl e) = Inl e"
  by (induction cs) simp_all

lemma fold_children:
  assumes "\<And>c acc. c \<in> set cs \<Longrightarrow>
             g c acc = (case map_err f (ns c) of Inl e \<Rightarrow> Inl e | Inr kss \<Rightarrow> Inr (acc @ concat kss))"
  shows "fold (\<lambda>child r. case r of Inl e \<Rightarrow> Inl e | Inr acc \<Rightarrow> g child acc) cs (Inr acc)
           = (case map_err f (concat (map ns cs)) of
                Inl e \<Rightarrow> Inl e
              | Inr kss \<Rightarrow> Inr (acc @ concat kss))"
  using assms
proof (induction cs arbitrary: acc)
  case Nil
  then show ?case by simp
next
  case (Cons c cs)
  show ?case
  proof (cases "map_err f (ns c)")
    case (Inl e)
    then show ?thesis using Cons.prems [of c acc] by (simp add: map_err_append fold_Inl)
  next
    case (Inr kss)
    have "fold (\<lambda>child r. case r of Inl e \<Rightarrow> Inl e | Inr acc \<Rightarrow> g child acc) cs
               (Inr (acc @ concat kss))
            = (case map_err f (concat (map ns cs)) of
                 Inl e \<Rightarrow> Inl e
               | Inr kss' \<Rightarrow> Inr ((acc @ concat kss) @ concat kss'))"
      by (rule Cons.IH) (simp add: Cons.prems)
    then show ?thesis using Cons.prems [of c acc] Inr
      by (simp add: map_err_append split: sum.splits)
  qed
qed

text \<open>
  The traversal pushes the keys of the nodes it visits, node by node, and the first
  exception ends it.
\<close>

lemma parseFiles_nodesOf:
  "isNode root \<Longrightarrow>
   parseFiles root acc =
     (case map_err translationKeys (nodesOf root) of
        Inl e \<Rightarrow> Inl e
      | Inr kss \<Rightarrow> Inr (acc @ concat kss))"
proof (induction root arbitrary: acc rule: measure_induct_rule [of size])
  case (less root)
  have ch: "parseFiles c a =
        (case map_err translationKeys (nodesOf c) of
           Inl e \<Rightarrow> Inl e
         | Inr kss \<Rightarrow> Inr (a @ concat kss))"
    if "c \<in> set (forEachChild root)" for c a
    using that less.IH [of c a] forEachChild_size [of c root] isNode_forEachChild [of c root]
    by simp
  show ?case
  proof (cases "translationKeys root")
    case (Inl e)
    then show ?thesis using less.prems
      by (subst parseFiles.simps, subst nodesOf.simps) simp
  next
    case (Inr keys)
    show ?thesis using less.prems Inr
      by (subst parseFiles.simps, subst nodesOf.simps)
         (simp add: fold_children [of "forEachChild root" parseFiles translationKeys nodesOf, OF ch]
               split: sum.splits)
  qed
qed

lemma map_err_member:
  "map_err f xs = Inr ys \<Longrightarrow> x \<in> set xs \<Longrightarrow> f x = Inr y \<Longrightarrow> y \<in> set ys"
  by (induction xs arbitrary: ys) (auto split: sum.splits)

subsection \<open>Activation\<close>

text \<open>
  Claim C4 does not hold of the code as it is worded. The callee of the call
  \<open>instant('errors.timeout')\<close> is the identifier \<open>instant\<close>, a node without a property
  \<open>name\<close>: the test of line 101 reads \<open>node.expression.name\<close>, finds \<open>undefined\<close>, and
  the extractor yields nothing for the call.
\<close>

theorem bare_instant_call_counterexample:
  "parseTSAst [callExpression (identifierNode ''instant'') [stringLiteral ''errors.timeout'']] = Inr []
   \<and> parseTSAst [sourceFile [expressionStatement
          (callExpression (identifierNode ''instant'') [stringLiteral ''errors.timeout''])]] = Inr []"
  by code_simp

text \<open>
  Claim C4, amended. The extractor is active at a node of kind 207 whose callee has a
  property \<open>name\<close> with the text \<open>instant\<close>, as the property access \<open>i18n.instant\<close> has.
  Wherever such a call stands in a file, with a non-empty string literal \<open>s\<close> as its
  first argument, the keys pushed at the node are \<open>s\<close> alone, and the traversal of the
  file, unless it ends with an exception, yields \<open>s\<close> among its keys. The statement
  \<open>i18n.instant('errors.timeout')\<close> yields \<open>errors.timeout\<close>; with the name spelled
  \<open>Instant\<close> it yields nothing.
\<close>

theorem instant_property_call_extracts_argument:
  assumes "isNode root"
    and "node \<in> set (nodesOf root)"
    and "js_prop node ''kind'' = Num 207"
    and "js_prop (js_prop (js_prop node ''expression'') ''name'') ''escapedText'' = Str ''instant''"
    and "js_prop node ''arguments'' = Arr (stringLiteral s # args) nm"
    and "s \<noteq> []"
  shows "translationKeys node = Inr [Str s]
         \<and> (\<forall>ks. parseTSAst [root] = Inr ks \<longrightarrow> Str s \<in> set ks)
         \<and> parseTSAst [sourceFile [expressionStatement (instantCall (stringLiteral ''errors.timeout''))]]
             = Inr [Str ''errors.timeout'']
         \<and> parseTSAst [sourceFile [expressionStatement
                (callExpression (propertyAccessExpression (identifierNode ''i18n'') ''Instant'')
                   [stringLiteral ''errors.timeout''])]] = Inr []"
proof -
  let ?callee = "js_prop node ''expression''"
  have nm: "truthy (js_prop ?callee ''name'')"
    using assms(4) by (cases "js_prop ?callee ''name''") (auto split: if_splits option.splits)
  have ex: "truthy ?callee"
    using nm by (cases ?callee) (auto split: if_splits option.splits)
  have k: "map_err inferKey (argumentNodes (stringLiteral s)) = Inr [Str s]"
    using assms(6) inferKey_stringLiteral [of s] by (simp add: stringLiteral_def)
  have a: "translationKeys node = Inr [Str s]"
    using assms(3-5) nm ex k by (simp add: translationKeys_def)
  have b: "Str s \<in> set ks" if r: "parseTSAst [root] = Inr ks" for ks
  proof -
    from r assms(1) obtain kss where m: "map_err translationKeys (nodesOf root) = Inr kss"
      and ks: "ks = concat kss"
      by (auto simp add: parseTSAst_single parseFiles_nodesOf split: sum.splits)
    from map_err_member [OF m assms(2) a] have "[Str s] \<in> set kss" .
    then have "Str s \<in> set (concat kss)" by (subst set_concat) force
    with ks show ?thesis by simp
  qed
  have c: "parseTSAst [sourceFile [expressionStatement (instantCall (stringLiteral ''errors.timeout''))]]
             = Inr [Str ''errors.timeout'']"
    by code_simp
  have d: "parseTSAst [sourceFile [expressionStatement
                (callExpression (propertyAccessExpression (identifierNode ''i18n'') ''Instant'')
                   [stringLiteral ''errors.timeout''])]] = Inr []"
    by code_simp
  from a b c d show ?thesis by blast
qed

theorem instant_property_call_extracts_argument_witness:
  "isNode (sourceFile [expressionStatement (instantCall (stringLiteral ''errors.timeout''))])
   \<and> instantCall (stringLiteral ''errors.timeout'')
       \<in> set (nodesOf (sourceFile [expressionStatement (instantCall (stringLiteral ''errors.timeout''))]))
   \<and> js_prop (instantCall (stringLiteral ''errors.timeout'')) ''kind'' = Num 207
   \<and> js_prop (js_prop (js_prop (instantCall (stringLiteral ''errors.timeout'')) ''expression'')
        ''name'') ''escapedText'' = Str ''instant''
   \<and> js_prop (instantCall (stringLiteral ''errors.timeout'')) ''arguments''
        = Arr [stringLiteral ''errors.timeout''] []
   \<and> translationKeys (instantCall (stringLiteral ''errors.timeout'')) = Inr [Str ''errors.timeout'']
   \<and> Str ''errors.timeout''
       \<in> set (projr (parseTSAst
            [sourceFile [expressionStatement (instantCall (stringLiteral ''errors.timeout''))]]))"
proof -
  let ?n = "instantCall (stringLiteral ''errors.timeout'')"
  let ?root = "sourceFile [expressionStatement ?n]"
  have h1: "isNode ?root" by code_simp
  have h2: "?n \<in> set (nodesOf ?root)" by code_simp
  have h3: "js_prop ?n ''kind'' = Num 207" by code_simp
  have h4: "js_prop (js_prop (js_prop ?n ''expression'') ''name'') ''escapedText'' = Str ''instant''"
    by code_simp
  have h5: "js_prop ?n ''arguments'' = Arr (stringLiteral ''errors.timeout'' # []) []"
    by code_simp
  have h6: "''errors.timeout'' \<noteq> []" by simp
  have r: "parseTSAst [?root] = Inr [Str ''errors.timeout'']" by code_simp
  from instant_property_call_extracts_argument [OF h1 h2 h3 h4 h5 h6]
  have k: "translationKeys ?n = Inr [Str ''errors.timeout'']"
    and m: "\<forall>ks. parseTSAst [?root] = Inr ks \<longrightarrow> Str ''errors.timeout'' \<in> set ks"
    by blast+
  from m r have "Str ''errors.timeout'' \<in> set (projr (parseTSAst [?root]))" by simp
  with h1 h2 h3 h4 h5 k show ?thesis by simp
qed

section \<open>Determinism of the extraction\<close>

text \<open>
  The extractors on the store compute what the functions \<open>parseHTMLAst\<close> and
  \<open>parseTSAst\<close> compute from the elements of \<open>trees\<close> and from the root nodes: the
  arrays they work on are new cells, and of the store they found they change nothing.
\<close>

declare parseHTMLAst_while.simps [simp del]
declare parseFiles_run.simps [simp del]

lemma parseHTMLAst_while_loop:
  "q < length (nodeArrays \<sigma>) \<Longrightarrow> r < length (keyArrays \<sigma>) \<Longrightarrow>
   nodeArrays \<sigma> ! q = queue \<Longrightarrow> keyArrays \<sigma> ! r = results \<Longrightarrow>
   parseHTMLAst_while \<sigma> q r =
     (case parseHTMLAst_loop queue results of
        Inl e \<Rightarrow> Inl e
      | Inr ks \<Rightarrow> Inr (\<sigma>\<lparr>nodeArrays := (nodeArrays \<sigma>)[q := []],
                          keyArrays := (keyArrays \<sigma>)[r := ks]\<rparr>))"
proof (induction queue results arbitrary: \<sigma> rule: parseHTMLAst_loop.induct)
  case (1 results)
  then show ?case
    by (subst parseHTMLAst_while.simps) (simp add: list_update_same_conv [THEN iffD2])
next
  case (2 currentNode rest results)
  let ?\<sigma>1 = "\<sigma>\<lparr>nodeArrays := (nodeArrays \<sigma>)[q := rest @ pushedNodes currentNode]\<rparr>"
  show ?case
  proof (cases "str_truthy (rawAttrs currentNode) \<or> str_truthy (rawText currentNode)")
    case False
    have "parseHTMLAst_while ?\<sigma>1 q r =
            (case parseHTMLAst_loop (rest @ pushedNodes currentNode) results of
               Inl e \<Rightarrow> Inl e
             | Inr ks \<Rightarrow> Inr (?\<sigma>1\<lparr>nodeArrays := (nodeArrays ?\<sigma>1)[q := []],
                                  keyArrays := (keyArrays ?\<sigma>1)[r := ks]\<rparr>))"
      using 2 False by (intro "2.IH"(2)) simp_all
    then show ?thesis using 2(3-6) False
      by (subst parseHTMLAst_while.simps) (simp add: Let_def split: sum.splits)
  next
    case True
    show ?thesis
    proof (cases "getAttributeTranslation currentNode")
      case (Inl e)
      then show ?thesis using 2(3-6) True
        by (subst parseHTMLAst_while.simps) (simp add: Let_def)
    next
      case (Inr attrValue)
      let ?\<sigma>2 = "?\<sigma>1\<lparr>keyArrays := (keyArrays ?\<sigma>1)[r :=
                     keyArrays ?\<sigma>1 ! r @ attrValue @ getTextTranslation currentNode]\<rparr>"
      have "parseHTMLAst_while ?\<sigma>2 q r =
            (case parseHTMLAst_loop (rest @ pushedNodes currentNode)
                    (results @ attrValue @ getTextTranslation currentNode) of
               Inl e \<Rightarrow> Inl e
             | Inr ks \<Rightarrow> Inr (?\<sigma>2\<lparr>nodeArrays := (nodeArrays ?\<sigma>2)[q := []],
                                  keyArrays := (keyArrays ?\<sigma>2)[r := ks]\<rparr>))"
        using 2(3-6) True Inr by (intro "2.IH"(1)) simp_all
      then show ?thesis using 2(3-6) True Inr
        by (subst parseHTMLAst_while.simps) (simp add: Let_def split: sum.splits)
    qed
  qed
qed

lemma parseHTMLAst_run_pure:
  "trees < length (nodeArrays \<sigma>) \<Longrightarrow>
   parseHTMLAst_run \<sigma> trees =
     (case parseHTMLAst (nodeArrays \<sigma> ! trees) of
        Inl e \<Rightarrow> Inl e
      | Inr ks \<Rightarrow> Inr (\<sigma>\<lparr>keyArrays := keyArrays \<sigma> @ [ks],
                          nodeArrays := nodeArrays \<sigma> @ [[]]\<rparr>, length (keyArrays \<sigma>)))"
  by (simp add: parseHTMLAst_run_def Let_def parseHTMLAst_def
        parseHTMLAst_while_loop [where queue = "nodeArrays \<sigma> ! trees" and results = "[]"]
        nth_append split: sum.splits)

lemma fold_Inl_run:
  "fold (\<lambda>child r. case r of Inl e \<Rightarrow> Inl e | Inr acc \<Rightarrow> g acc child) cs (Inl e) = Inl e"
  by (induction cs) simp_all

lemma fold_children_run:
  assumes "\<And>c \<sigma>. c \<in> set cs \<Longrightarrow> p < length (valueArrays \<sigma>) \<Longrightarrow>
             g \<sigma> c = (case map_err f (ns c) of
                         Inl e \<Rightarrow> Inl e
                       | Inr kss \<Rightarrow> Inr (\<sigma>\<lparr>valueArrays :=
                             (valueArrays \<sigma>)[p := valueArrays \<sigma> ! p @ concat kss]\<rparr>))"
    and "p < length (valueArrays \<sigma>)"
  shows "fold (\<lambda>child r. case r of Inl e \<Rightarrow> Inl e | Inr \<sigma>' \<Rightarrow> g \<sigma>' child) cs (Inr \<sigma>)
           = (case map_err f (concat (map ns cs)) of
                Inl e \<Rightarrow> Inl e
              | Inr kss \<Rightarrow> Inr (\<sigma>\<lparr>valueArrays :=
                             (valueArrays \<sigma>)[p := valueArrays \<sigma> ! p @ concat kss]\<rparr>))"
  using assms
proof (induction cs arbitrary: \<sigma>)
  case Nil
  then show ?case by (simp add: list_update_same_conv [THEN iffD2])
next
  case (Cons c cs)
  show ?case
  proof (cases "map_err f (ns c)")
    case (Inl e)
    then show ?thesis using Cons.prems(1) [of c \<sigma>] Cons.prems(2)
      by (simp add: map_err_append fold_Inl_run)
  next
    case (Inr kss)
    let ?\<sigma>1 = "\<sigma>\<lparr>valueArrays := (valueArrays \<sigma>)[p := valueArrays \<sigma> ! p @ concat kss]\<rparr>"
    have "fold (\<lambda>child r. case r of Inl e \<Rightarrow> Inl e | Inr \<sigma>' \<Rightarrow> g \<sigma>' child) cs (Inr ?\<sigma>1)
            = (case map_err f (concat (map ns cs)) of
                 Inl e \<Rightarrow> Inl e
               | Inr kss' \<Rightarrow> Inr (?\<sigma>1\<lparr>valueArrays :=
                             (valueArrays ?\<sigma>1)[p := valueArrays ?\<sigma>1 ! p @ concat kss']\<rparr>))"
      using Cons.prems by (intro Cons.IH) simp_all
    then show ?thesis using Cons.prems(1) [of c \<sigma>] Cons.prems(2) Inr
      by (simp add: map_err_append split: sum.splits)
  qed
qed

lemma parseFiles_run_nodesOf:
  "isNode root \<Longrightarrow> p < length (valueArrays \<sigma>) \<Longrightarrow>
   parseFiles_run \<sigma> p root =
     (case map_err translationKeys (nodesOf root) of
        Inl e \<Rightarrow> Inl e
      | Inr kss \<Rightarrow> Inr (\<sigma>\<lparr>valueArrays := (valueArrays \<sigma>)[p := valueArrays \<sigma> ! p @ concat kss]\<rparr>))"
proof (induction root arbitrary: \<sigma> rule: measure_induct_rule [of size])
  case (less root)
  have ch: "parseFiles_run \<sigma>' p c =
        (case map_err translationKeys (nodesOf c) of
           Inl e \<Rightarrow> Inl e
         | Inr kss \<Rightarrow> Inr (\<sigma>'\<lparr>valueArrays := (valueArrays \<sigma>')[p := valueArrays \<sigma>' ! p @ concat kss]\<rparr>))"
    if "c \<in> set (forEachChild root)" and "p < length (valueArrays \<sigma>')" for c \<sigma>'
    using that less.IH [of c \<sigma>'] forEachChild_size [of c root] isNode_forEachChild [of c root]
    by simp
  show ?case
  proof (cases "translationKeys root")
    case (Inl e)
    then show ?thesis using less.prems
      by (subst parseFiles_run.simps, subst nodesOf.simps) simp
  next
    case (Inr keys)
    let ?\<sigma>1 = "\<sigma>\<lparr>valueArrays := (valueArrays \<sigma>)[p := valueArrays \<sigma> ! p @ keys]\<rparr>"
    have p1: "p < length (valueArrays ?\<sigma>1)" using less.prems by simp
    show ?thesis using less.prems Inr
      by (subst parseFiles_run.simps, subst nodesOf.simps)
         (simp add: fold_children_run [of "forEachChild root" p "\<lambda>\<sigma> c. parseFiles_run \<sigma> p c"
                       translationKeys nodesOf ?\<sigma>1, OF ch p1]
               split: sum.splits)
  qed
qed

lemma parseFiles_run_pure:
  "isNode root \<Longrightarrow> p < length (valueArrays \<sigma>) \<Longrightarrow>
   parseFiles_run \<sigma> p root =
     (case parseFiles root (valueArrays \<sigma> ! p) of
        Inl e \<Rightarrow> Inl e
      | Inr acc \<Rightarrow> Inr (\<sigma>\<lparr>valueArrays := (valueArrays \<sigma>)[p := acc]\<rparr>))"
  by (simp add: parseFiles_run_nodesOf parseFiles_nodesOf split: sum.splits)

lemma parseFiles_run_not_node: "\<not> isNode root \<Longrightarrow> parseFiles_run \<sigma> p root = Inl TypeError"
  by (subst parseFiles_run.simps) simp

lemma parseFiles_not_node: "\<not> isNode root \<Longrightarrow> parseFiles root acc = Inl TypeError"
  by (subst parseFiles.simps) simp

lemma parseFiles_run_pure':
  "p < length (valueArrays \<sigma>) \<Longrightarrow>
   parseFiles_run \<sigma> p root =
     (case parseFiles root (valueArrays \<sigma> ! p) of
        Inl e \<Rightarrow> Inl e
      | Inr acc \<Rightarrow> Inr (\<sigma>\<lparr>valueArrays := (valueArrays \<sigma>)[p := acc]\<rparr>))"
  by (cases "isNode root") (simp_all add: parseFiles_run_pure parseFiles_run_not_node parseFiles_not_node)

lemma fold_roots_run:
  "p < length (valueArrays \<sigma>) \<Longrightarrow>
   fold (\<lambda>rootNode r. case r of Inl e \<Rightarrow> Inl e | Inr \<sigma>' \<Rightarrow> parseFiles_run \<sigma>' p rootNode) roots (Inr \<sigma>)
     = (case fold (\<lambda>rootNode r. case r of Inl e \<Rightarrow> Inl e | Inr acc \<Rightarrow> parseFiles rootNode acc)
                  roots (Inr (valueArrays \<sigma> ! p)) of
          Inl e \<Rightarrow> Inl e
        | Inr acc \<Rightarrow> Inr (\<sigma>\<lparr>valueArrays := (valueArrays \<sigma>)[p := acc]\<rparr>))"
proof (induction roots arbitrary: \<sigma>)
  case Nil
  then show ?case by (simp add: list_update_same_conv [THEN iffD2])
next
  case (Cons root roots)
  show ?case
  proof (cases "parseFiles root (valueArrays \<sigma> ! p)")
    case (Inl e)
    then show ?thesis using Cons.prems
      by (simp add: parseFiles_run_pure' fold_Inl fold_Inl_run)
  next
    case (Inr acc)
    let ?\<sigma>1 = "\<sigma>\<lparr>valueArrays := (valueArrays \<sigma>)[p := acc]\<rparr>"
    have "p < length (valueArrays ?\<sigma>1)" using Cons.prems by simp
    from Cons.IH [OF this] show ?thesis using Cons.prems Inr
      by (simp add: parseFiles_run_pure' split: sum.splits)
  qed
qed

lemma parseTSAst_run_pure:
  "parseTSAst_run \<sigma> roots =
     (case parseTSAst roots of
        Inl e \<Rightarrow> Inl e
      | Inr vs \<Rightarrow> Inr (\<sigma>\<lparr>valueArrays := valueArrays \<sigma> @ [vs]\<rparr>, length (valueArrays \<sigma>)))"
  by (simp add: parseTSAst_run_def parseTSAst_def Let_def
        fold_roots_run [of "length (valueArrays \<sigma>)" "\<sigma>\<lparr>valueArrays := valueArrays \<sigma> @ [[]]\<rparr>"]
        split: sum.splits)

lemma candidates_extraction_run:
  "trees < length (nodeArrays \<sigma>) \<Longrightarrow>
   candidates (extraction_run \<sigma> trees roots) =
     (case parseHTMLAst (nodeArrays \<sigma> ! trees) of
        Inl e \<Rightarrow> Inl e
      | Inr ks \<Rightarrow> (case parseTSAst roots of Inl e \<Rightarrow> Inl e | Inr vs \<Rightarrow> Inr (ks, vs)))"
  by (simp add: extraction_run_def parseHTMLAst_run_pure parseTSAst_run_pure nth_append
        split: sum.splits)

lemma extraction_run_store:
  "trees < length (nodeArrays \<sigma>) \<Longrightarrow> extraction_run \<sigma> trees roots = Inr (\<sigma>1, h, t) \<Longrightarrow>
   take (length (nodeArrays \<sigma>)) (nodeArrays \<sigma>1) = nodeArrays \<sigma>
   \<and> take (length (keyArrays \<sigma>)) (keyArrays \<sigma>1) = keyArrays \<sigma>
   \<and> take (length (valueArrays \<sigma>)) (valueArrays \<sigma>1) = valueArrays \<sigma>"
  by (auto simp add: extraction_run_def parseHTMLAst_run_pure parseTSAst_run_pure
        split: sum.splits)

text \<open>
  Claim C9. The candidates of a run depend on the elements of \<open>trees\<close> and on the root
  nodes only, not on what else the store holds: two runs on identical input trees, from
  any two stores, end alike, with the same candidates in the same order (so with the
  same set of candidates) or with the same exception. A run changes no array that
  existed before it, the array \<open>trees\<close> included, so that a second run from the store
  that the first one left yields the candidates of the first.
\<close>

theorem extraction_deterministic_on_store:
  assumes "trees < length (nodeArrays \<sigma>)"
    and "trees' < length (nodeArrays \<sigma>')"
    and "nodeArrays \<sigma> ! trees = nodeArrays \<sigma>' ! trees'"
  shows "candidates (extraction_run \<sigma> trees rootNodes)
           = candidates (extraction_run \<sigma>' trees' rootNodes)
         \<and> (\<forall>\<sigma>1 h t. extraction_run \<sigma> trees rootNodes = Inr (\<sigma>1, h, t) \<longrightarrow>
                take (length (nodeArrays \<sigma>)) (nodeArrays \<sigma>1) = nodeArrays \<sigma>
              \<and> take (length (keyArrays \<sigma>)) (keyArrays \<sigma>1) = keyArrays \<sigma>
              \<and> take (length (valueArrays \<sigma>)) (valueArrays \<sigma>1) = valueArrays \<sigma>
              \<and> candidates (extraction_run \<sigma>1 trees rootNodes)
                  = candidates (extraction_run \<sigma> trees rootNodes))"
proof -
  have a: "candidates (extraction_run \<sigma> trees rootNodes)
             = candidates (extraction_run \<sigma>' trees' rootNodes)"
    using assms by (simp add: candidates_extraction_run)
  have b: "take (length (nodeArrays \<sigma>)) (nodeArrays \<sigma>1) = nodeArrays \<sigma>
           \<and> take (length (keyArrays \<sigma>)) (keyArrays \<sigma>1) = keyArrays \<sigma>
           \<and> take (length (valueArrays \<sigma>)) (valueArrays \<sigma>1) = valueArrays \<sigma>
           \<and> candidates (extraction_run \<sigma>1 trees rootNodes)
               = candidates (extraction_run \<sigma> trees rootNodes)"
    if r: "extraction_run \<sigma> trees rootNodes = Inr (\<sigma>1, h, t)" for \<sigma>1 h t
  proof -
    from extraction_run_store [OF assms(1) r]
    have f: "take (length (nodeArrays \<sigma>)) (nodeArrays \<sigma>1) = nodeArrays \<sigma>"
      and g: "take (length (keyArrays \<sigma>)) (keyArrays \<sigma>1) = keyArrays \<sigma>"
      and v: "take (length (valueArrays \<sigma>)) (valueArrays \<sigma>1) = valueArrays \<sigma>"
      by blast+
    from arg_cong [OF f, of length]
    have l: "length (nodeArrays \<sigma>) \<le> length (nodeArrays \<sigma>1)"
      by simp
    from nth_take [OF assms(1), of "nodeArrays \<sigma>1"] f
    have n: "nodeArrays \<sigma>1 ! trees = nodeArrays \<sigma> ! trees"
      by (simp only:)
    from l assms(1) have t1: "trees < length (nodeArrays \<sigma>1)" by simp
    from t1 assms(1) n
    have "candidates (extraction_run \<sigma>1 trees rootNodes)
            = candidates (extraction_run \<sigma> trees rootNodes)"
      by (simp add: candidates_extraction_run)
    with f g v show ?thesis by blast
  qed
  from a b show ?thesis by blast
qed

theorem extraction_deterministic_on_store_witness:
  "(0::nat) < length (nodeArrays \<lparr>nodeArrays = [[greeting_node], [titled_node]],
                                   keyArrays = [[''stale.key'']], valueArrays = []\<rparr>)
   \<and> (1::nat) < length (nodeArrays \<lparr>nodeArrays = [[], [greeting_node]],
                                     keyArrays = [], valueArrays = [[Str ''stale'']]\<rparr>)
   \<and> candidates (extraction_run \<lparr>nodeArrays = [[greeting_node], [titled_node]],
                                   keyArrays = [[''stale.key'']], valueArrays = []\<rparr> 0
          [sourceFile [expressionStatement (instantCall (stringLiteral ''errors.timeout''))]])
       = Inr ([''greeting.hello''], [Str ''errors.timeout''])
   \<and> candidates (extraction_run \<lparr>nodeArrays = [[], [greeting_node]],
                                   keyArrays = [], valueArrays = [[Str ''stale'']]\<rparr> 1
          [sourceFile [expressionStatement (instantCall (stringLiteral ''errors.timeout''))]])
       = Inr ([''greeting.hello''], [Str ''errors.timeout''])"
proof -
  let ?s = "\<lparr>nodeArrays = [[greeting_node], [titled_node]],
            keyArrays = [[''stale.key'']], valueArrays = []\<rparr>"
  let ?s' = "\<lparr>nodeArrays = [[], [greeting_node]],
             keyArrays = [], valueArrays = [[Str ''stale'']]\<rparr>"
  let ?roots = "[sourceFile [expressionStatement (instantCall (stringLiteral ''errors.timeout''))]]"
  have h1: "(0::nat) < length (nodeArrays ?s)" by simp
  have h2: "(1::nat) < length (nodeArrays ?s')" by simp
  have h3: "nodeArrays ?s ! 0 = nodeArrays ?s' ! 1" by simp
  have r: "candidates (extraction_run ?s 0 ?roots)
             = Inr ([''greeting.hello''], [Str ''errors.timeout''])"
    by code_simp
  from extraction_deterministic_on_store [OF h1 h2 h3, of ?roots] r
  have "candidates (extraction_run ?s' 1 ?roots)
          = Inr ([''greeting.hello''], [Str ''errors.timeout''])"
    by metis
  with h1 h2 r show ?thesis by blast
qed

section \<open>Properties of the resolver\<close>

subsection \<open>Assignments of a new name\<close>

















subsection \<open>Filing a key\<close>



lemma hello_heap_loaded:
  "createJSONTranslations sampleRuntime sampleHeap [hello_catalog] []
     = Inr (hello_heap, VRef 21, VRef 17)"
  by code_simp




section \<open>Array arguments\<close>

lemma map_err_elementText: "map_err elementText (map stringLiteral ks) = Inr (map Str ks)"
  by (induction ks) (simp_all add: elementText_def stringLiteral_def)

lemma inferKey_arrayLiteral:
  "ks \<noteq> [] \<Longrightarrow>
     inferKey (arrayLiteralExpression (map stringLiteral ks)) = Inr (Arr (map Str ks) [])"
  by (simp add: inferKey_def validFields_def arrayLiteralExpression_def lodash_get_def
        lodash_get_undefined_def map_err_elementText)

lemma fold_parseFiles_literals:
  "fold (\<lambda>child r. case r of Inl e \<Rightarrow> Inl e | Inr acc \<Rightarrow> parseFiles child acc)
        (map stringLiteral ks) (Inr acc) = Inr acc"
  by (induction ks) (simp_all add: parseFiles_stringLiteral)

lemma filter_isNode_literals: "filter isNode (map stringLiteral ks) = map stringLiteral ks"
  by (induction ks) (simp_all add: stringLiteral_def)

lemma parseFiles_arrayLiteral:
  "parseFiles (arrayLiteralExpression (map stringLiteral ks)) acc = Inr acc"
proof -
  have "translationKeys (arrayLiteralExpression (map stringLiteral ks)) = Inr []"
    by (simp add: translationKeys_def arrayLiteralExpression_def)
  moreover have "forEachChild (arrayLiteralExpression (map stringLiteral ks)) = map stringLiteral ks"
    by (simp add: arrayLiteralExpression_def filter_isNode_literals)
  moreover have "isNode (arrayLiteralExpression (map stringLiteral ks))"
    by (simp add: arrayLiteralExpression_def)
  ultimately show ?thesis
    by (subst parseFiles.simps) (simp add: fold_parseFiles_literals)
qed

lemma isNode_arrayLiteral: "isNode (arrayLiteralExpression es)"
  by (simp add: arrayLiteralExpression_def)

lemma parseTSAst_array_call:
  "ks \<noteq> [] \<Longrightarrow>
     parseTSAst [instantCall (arrayLiteralExpression (map stringLiteral ks))]
       = Inr [Arr (map Str ks) []]"
  by (simp add: parseTSAst_single parseFiles_instantCall isNode_arrayLiteral
        inferKey_arrayLiteral parseFiles_arrayLiteral)

lemma fold_parseFiles_calls:
  "\<forall>k \<in> set ks. k \<noteq> [] \<Longrightarrow>
     fold (\<lambda>rootNode r. case r of Inl e \<Rightarrow> Inl e | Inr acc \<Rightarrow> parseFiles rootNode acc)
          (map (\<lambda>k. instantCall (stringLiteral k)) ks) (Inr acc) = Inr (acc @ map Str ks)"
  by (induction ks arbitrary: acc)
     (simp_all add: parseFiles_instantCall isNode_stringLiteral inferKey_stringLiteral
        parseFiles_stringLiteral)

lemma parseHTMLAst_Nil: "parseHTMLAst [] = Inr []"
  by (simp add: parseHTMLAst_def)

lemma flat_strings: "flat (map Str ks) = map Str ks"
  by (induction ks) (simp_all add: flat_def)

lemma setAdd_Str:
  "setAdd (Str k) (map Str seen) = map Str (if k \<in> set seen then seen else seen @ [k])"
  by (auto simp add: setAdd_def list_ex_iff)

lemma fold_setAdd_Str:
  "fold setAdd (map Str ks) (map Str seen)
     = map Str (fold (\<lambda>k seen. if k \<in> set seen then seen else seen @ [k]) ks seen)"
  by (induction ks arbitrary: seen) (simp_all add: setAdd_Str)

lemma fold_first_occurrences:
  "distinct seen \<Longrightarrow>
     distinct (fold (\<lambda>k seen. if k \<in> set seen then seen else seen @ [k]) ks seen)
     \<and> set (fold (\<lambda>k seen. if k \<in> set seen then seen else seen @ [k]) ks seen)
         = set seen \<union> set ks"
  by (induction ks arbitrary: seen) auto

text \<open>Of string candidates the set keeps the different strings.\<close>

lemma filterResults_strings:
  "\<exists>keys. filterResults (map Str ks) = map Str keys \<and> distinct keys \<and> set keys = set ks"
proof -
  have "filterResults (map Str ks)
          = map Str (fold (\<lambda>k seen. if k \<in> set seen then seen else seen @ [k]) ks [])"
    using fold_setAdd_Str [of ks "[]"] by (simp add: filterResults_def)
  with fold_first_occurrences [of "[]" ks] show ?thesis by auto
qed

text \<open>
  Claim C2 does not hold of the code as it is worded. The call \<open>instant(['k1','k2'])\<close>
  has an identifier as its callee, so the extractor yields nothing for it. And the
  resolver does not file the elements of a sequence-valued candidate: handed the
  candidate \<open>["k1","k2"]\<close>, it throws, because an array has no method \<open>split\<close>.
\<close>

theorem array_candidate_counterexample:
  "parseTSAst [callExpression (identifierNode ''instant'')
                 [arrayLiteralExpression [stringLiteral ''k1'', stringLiteral ''k2'']]] = Inr []
   \<and> createJSONTranslations sampleRuntime sampleHeap [hello_catalog]
         [Arr [Str ''k1'', Str ''k2''] []] = Inl TypeError
   \<and> translationFiles sampleRuntime sampleHeap [hello_catalog]
         [Arr [Str ''k1'', Str ''k2''] []] = Inl TypeError"
  by code_simp

text \<open>
  Claim C2, amended. For the call \<open>i18n.instant([k1, ..., kn])\<close> with a non-empty array
  of string literals the program extractor emits one candidate, the array of the keys.
  The resolver cannot file this candidate; it is the call of \<open>flat\<close> on line 15 that
  spreads it, so that the resolver is handed the different keys as plain string
  candidates and files each of them along its path split at the dots. The run is that
  of the resolver on these strings and, when no key is empty, that of a run on the
  calls \<open>i18n.instant(k1)\<close>, ..., \<open>i18n.instant(kn)\<close>.
\<close>

theorem array_argument_spread_before_resolver:
  assumes "ks \<noteq> []"
  shows "parseTSAst [instantCall (arrayLiteralExpression (map stringLiteral ks))]
           = Inr [Arr (map Str ks) []]
         \<and> fileKey rt h translationsObject acc unresolvedTranslations (Arr (map Str ks) [])
             = Inl TypeError
         \<and> flat [Arr (map Str ks) []] = map Str ks
         \<and> (\<exists>keys. filteredResults [] [instantCall (arrayLiteralExpression (map stringLiteral ks))]
                      = Inr (map Str keys)
                    \<and> distinct keys \<and> set keys = set ks
                    \<and> extractTranslations rt h documents []
                          [instantCall (arrayLiteralExpression (map stringLiteral ks))]
                        = createJSONTranslations rt h documents (map Str keys))
         \<and> ([] \<notin> set ks \<longrightarrow>
              extractTranslations rt h documents []
                  [instantCall (arrayLiteralExpression (map stringLiteral ks))]
                = extractTranslations rt h documents [] (map (\<lambda>k. instantCall (stringLiteral k)) ks))"
proof -
  let ?call = "instantCall (arrayLiteralExpression (map stringLiteral ks))"
  have a: "parseTSAst [?call] = Inr [Arr (map Str ks) []]"
    using assms by (rule parseTSAst_array_call)
  have b: "fileKey rt h translationsObject acc unresolvedTranslations (Arr (map Str ks) [])
             = Inl TypeError"
    by simp
  have c: "flat [Arr (map Str ks) []] = map Str ks" by (simp add: flat_def)
  have d: "filteredResults [] [?call] = Inr (filterResults (map Str ks))"
    by (simp add: filteredResults_def parseHTMLAst_Nil a c)
  from filterResults_strings [of ks] obtain keys
    where k: "filterResults (map Str ks) = map Str keys" "distinct keys" "set keys = set ks"
    by blast
  have e: "extractTranslations rt h documents [] [?call]
             = createJSONTranslations rt h documents (map Str keys)"
    by (simp add: extractTranslations_def d k(1))
  have f: "extractTranslations rt h documents [] (map (\<lambda>k. instantCall (stringLiteral k)) ks)
             = extractTranslations rt h documents [] [?call]"
    if "[] \<notin> set ks"
  proof -
    from that have "\<forall>k \<in> set ks. k \<noteq> []" by auto
    from fold_parseFiles_calls [OF this, of "[]"]
    have "parseTSAst (map (\<lambda>k. instantCall (stringLiteral k)) ks) = Inr (map Str ks)"
      by (simp add: parseTSAst_def)
    then have "filteredResults [] (map (\<lambda>k. instantCall (stringLiteral k)) ks)
                 = Inr (filterResults (map Str ks))"
      by (simp add: filteredResults_def parseHTMLAst_Nil flat_strings)
    with d show ?thesis by (simp add: extractTranslations_def)
  qed
  from d k have g: "\<exists>keys. filteredResults [] [?call] = Inr (map Str keys)
                    \<and> distinct keys \<and> set keys = set ks
                    \<and> extractTranslations rt h documents [] [?call]
                        = createJSONTranslations rt h documents (map Str keys)"
    using e by auto
  from a b c g f show ?thesis by simp
qed

theorem array_argument_spread_before_resolver_witness:
  "[''a.b'', ''a.c''] \<noteq> []
   \<and> parseTSAst [instantCall (arrayLiteralExpression [stringLiteral ''a.b'', stringLiteral ''a.c''])]
       = Inr [Arr [Str ''a.b'', Str ''a.c''] []]
   \<and> filteredResults []
         [instantCall (arrayLiteralExpression [stringLiteral ''a.b'', stringLiteral ''a.c''])]
       = Inr [Str ''a.b'', Str ''a.c'']
   \<and> extractTranslations sampleRuntime sampleHeap [hello_catalog] []
         [instantCall (arrayLiteralExpression [stringLiteral ''a.b'', stringLiteral ''a.c''])]
       = extractTranslations sampleRuntime sampleHeap [hello_catalog] []
           [instantCall (stringLiteral ''a.b''), instantCall (stringLiteral ''a.c'')]
   \<and> translationFiles sampleRuntime sampleHeap [hello_catalog] [Str ''a.b'', Str ''a.c'']
       = Inr (Some (JObj [(''a'', JObj [(''b'', JStr ''Hello'')])]),
              Some (JObj [(''a'', JObj [(''c'', JStr ''a.c'')])]))"
proof -
  let ?ks = "[''a.b'', ''a.c'']"
  let ?call = "instantCall (arrayLiteralExpression (map stringLiteral ?ks))"
  have h: "?ks \<noteq> []" by simp
  have p: "[] \<notin> set ?ks" by simp
  have r: "filteredResults [] [?call] = Inr [Str ''a.b'', Str ''a.c'']" by code_simp
  have t: "translationFiles sampleRuntime sampleHeap [hello_catalog] [Str ''a.b'', Str ''a.c'']
             = Inr (Some (JObj [(''a'', JObj [(''b'', JStr ''Hello'')])]),
                    Some (JObj [(''a'', JObj [(''c'', JStr ''a.c'')])]))"
    by code_simp
  note s = array_argument_spread_before_resolver
             [OF h, of sampleRuntime sampleHeap _ _ _ "[hello_catalog]"]
  from s have c1: "parseTSAst [?call] = Inr [Arr (map Str ?ks) []]" by blast
  from s p have e: "extractTranslations sampleRuntime sampleHeap [hello_catalog] [] [?call]
                  = extractTranslations sampleRuntime sampleHeap [hello_catalog] []
                      (map (\<lambda>k. instantCall (stringLiteral k)) ?ks)"
    by blast
  from h c1 r e t show ?thesis by simp
qed

end
